theory Spec2Isabelle
  imports Main "HOL-Library.Word"
begin

unbundle bit_operations_syntax

section \<open>Python values used by the two scripts\<close>

text \<open>
  A Python \<open>bytes\<close> object is a list of 8-bit words. A Python \<open>str\<close> is kept as the list
  of the bytes of its UTF-8 encoding (one \<open>char\<close> per byte); for the ASCII strings of
  \<open>isoparser.py\<close> that is one \<open>char\<close> per character. Python integers are unbounded:
  \<open>int\<close>, or \<open>nat\<close> where the value is read unsigned and only added to.
\<close>

type_synonym byte = "8 word"
type_synonym bytes = "byte list"

datatype error =
    IndexError
  | StructError
  | UnicodeDecodeError
  | ValueError
  | AssertionError
  | OSError
  | Exception string

text \<open>\<open>data[idx]\<close> on a bytes object: a negative index counts from the end.\<close>

definition getitem :: "bytes \<Rightarrow> int \<Rightarrow> error + byte" where
  "getitem data idx =
     (let n = int (length data); j = (if idx < 0 then n + idx else idx)
      in if 0 \<le> j \<and> j < n then Inr (data ! nat j) else Inl IndexError)"

text \<open>\<open>raw[a:b]\<close> with \<open>0 \<le> a\<close> and \<open>0 \<le> b\<close>: the slice is clipped to the buffer.\<close>

definition slice :: "bytes \<Rightarrow> nat \<Rightarrow> nat \<Rightarrow> bytes" where
  "slice raw a b = take (b - a) (drop a raw)"

text \<open>
  The bytes that \<open>struct.unpack_from(fmt, raw, offset)\<close> decodes, for a format of \<open>sz\<close>
  bytes. CPython accepts a negative offset as counted from the end of the buffer when the
  whole struct fits before the end, and raises \<open>struct.error\<close> otherwise, as it does when
  fewer than \<open>sz\<close> bytes follow the offset.
\<close>

definition unpack_from :: "nat \<Rightarrow> bytes \<Rightarrow> int \<Rightarrow> error + bytes" where
  "unpack_from sz raw offset =
     (let n = int (length raw) in
      if offset < 0 \<and> (offset + int sz > 0 \<or> offset + n < 0) then Inl StructError
      else
        (let off = (if offset < 0 then offset + n else offset) in
         if n - off < int sz then Inl StructError
         else Inr (take sz (drop (nat off) raw))))"

text \<open>Little-endian integers: \<open>B H I\<close> read unsigned, \<open>b h i\<close> read two's complement.\<close>

fun le_uint :: "bytes \<Rightarrow> nat" where
  "le_uint [] = 0"
| "le_uint (b # bs) = unat b + 256 * le_uint bs"

definition le_sint :: "bytes \<Rightarrow> int" where
  "le_sint bs =
     (let u = int (le_uint bs); w = 2 ^ (8 * length bs)
      in if 2 * u \<ge> w then u - w else u)"

text \<open>\<open>.decode('ascii')\<close>: any byte above 0x7F raises.\<close>

definition decode_ascii :: "bytes \<Rightarrow> error + string" where
  "decode_ascii bs =
     (if list_all (\<lambda>b. b < 0x80) bs then Inr (map (\<lambda>b. char_of (unat b)) bs)
      else Inl UnicodeDecodeError)"

section \<open>isoparser.py\<close>

subsection \<open>DirEntry\<close>

text \<open>
  The fields of the class \<open>DirEntry\<close>; \<open>length\<close> is written \<open>length_de\<close> here. The
  format \<open><bb i4x i4x 7s bbb h2x b\<close> is 33 bytes, every integer in it signed.
\<close>

record DirEntry =
  length_de :: int
  ext_length :: int
  extent :: int
  data_length :: int
  datetime :: bytes
  flags :: int
  unit_size :: int
  interleave_size :: int
  seqnum :: int
  name_len :: int
  name :: string

definition DirEntry_init :: "bytes \<Rightarrow> int \<Rightarrow> error + DirEntry" where
  "DirEntry_init raw offset =
     (case unpack_from 33 raw offset of
        Inl e \<Rightarrow> Inl e
      | Inr h \<Rightarrow>
          (let nl = le_sint (slice h 32 33) in
           if nl < 0 then Inl StructError
           else
             (case unpack_from (nat nl) raw (offset + 0x21) of
                Inl e \<Rightarrow> Inl e
              | Inr nm \<Rightarrow>
                  (case decode_ascii nm of
                     Inl e \<Rightarrow> Inl e
                   | Inr s \<Rightarrow>
                       Inr \<lparr> length_de = le_sint (slice h 0 1),
                             ext_length = le_sint (slice h 1 2),
                             extent = le_sint (slice h 2 6),
                             data_length = le_sint (slice h 10 14),
                             datetime = slice h 18 25,
                             flags = le_sint (slice h 25 26),
                             unit_size = le_sint (slice h 26 27),
                             interleave_size = le_sint (slice h 27 28),
                             seqnum = le_sint (slice h 28 30),
                             name_len = nl,
                             name = s \<rparr>))))"

subsection \<open>The stream\<close>

text \<open>
  A binary file opened for reading is the list of its bytes and a position. \<open>seek\<close> to a
  negative position raises; \<open>read(n)\<close> at a position returns the bytes that are left
  when fewer than \<open>n\<close> remain, everything that is left for \<open>n = -1\<close>, and raises for
  \<open>n < -1\<close>. Every read of \<open>walk_dirs\<close> and of the path table follows an absolute
  seek, so \<open>seek_read\<close> is the pair.
\<close>

definition read_n :: "bytes \<Rightarrow> nat \<Rightarrow> int \<Rightarrow> error + bytes" where
  "read_n stream pos n =
     (if n < -1 then Inl ValueError
      else if n = -1 then Inr (drop pos stream)
      else Inr (take (nat n) (drop pos stream)))"

definition seek_read :: "bytes \<Rightarrow> int \<Rightarrow> int \<Rightarrow> error + bytes" where
  "seek_read stream pos n =
     (if pos < 0 then Inl OSError else read_n stream (nat pos) n)"

subsection \<open>walk_dirs\<close>

text \<open>
  \<open>walk_dirs\<close> and its \<open>while\<close> loop (\<open>scan_records\<close>, with the loop variables \<open>idx\<close>,
  \<open>i\<close> and the list \<open>out\<close>). Neither the loop nor the recursion has a bound in the
  source, so both take fuel and \<open>None\<close> means that the fuel ran out. The recursive call
  receives the list just appended to, which is not empty: \<open>if not out\<close> keeps it, the
  callee appends to the caller's own list object, and the list it returns is the
  caller's list afterwards. \<open>entry.print()\<close> only writes to standard output, and
  the interpreter's limit on the depth of recursion is left out.
\<close>

fun walk_dirs :: "nat \<Rightarrow> bytes \<Rightarrow> DirEntry \<Rightarrow> DirEntry list option \<Rightarrow> (error + DirEntry list) option"
  and scan_records :: "nat \<Rightarrow> bytes \<Rightarrow> bytes \<Rightarrow> int \<Rightarrow> nat \<Rightarrow> DirEntry list \<Rightarrow> (error + DirEntry list) option"
where
  "walk_dirs 0 stream root_dir out = None"
| "walk_dirs (Suc n) stream root_dir out =
     (case seek_read stream (extent root_dir * 0x800) 0x800 of
        Inl e \<Rightarrow> Some (Inl e)
      | Inr data \<Rightarrow>
          scan_records n stream data 0 0 (case out of None \<Rightarrow> [] | Some xs \<Rightarrow> xs))"
| "scan_records 0 stream data idx i out = None"
| "scan_records (Suc n) stream data idx i out =
     (case getitem data idx of
        Inl e \<Rightarrow> Some (Inl e)
      | Inr b \<Rightarrow>
          if b = 0 then Some (Inr out)
          else
            (case DirEntry_init data idx of
               Inl e \<Rightarrow> Some (Inl e)
             | Inr entry \<Rightarrow>
                 if flags entry AND 0x02 \<noteq> 0 \<and> i \<ge> 2 then
                   (case walk_dirs n stream entry (Some (out @ [entry])) of
                      None \<Rightarrow> None
                    | Some (Inl e) \<Rightarrow> Some (Inl e)
                    | Some (Inr out') \<Rightarrow>
                        scan_records n stream data (idx + length_de entry) (i + 1) out')
                 else scan_records n stream data (idx + length_de entry) (i + 1) out))"

subsection \<open>IsoHeader\<close>

text \<open>
  \<open><i44xh2xi\<close> at offset 80 is 56 bytes: \<open>volume_space_size\<close> at 0, \<open>block_size\<close> at
  48 and \<open>path_table_size\<close> at 52 of them; \<open><ii\<close> at offset 140 is 8 bytes.
\<close>

record IsoHeader =
  volume_space_size :: int
  block_size :: int
  path_table_size :: int
  l_table_off :: int
  opt_l_table_off :: int
  root_dir :: DirEntry

definition IsoHeader_init :: "bytes \<Rightarrow> error + IsoHeader" where
  "IsoHeader_init pvd =
     (case unpack_from 56 pvd 80 of
        Inl e \<Rightarrow> Inl e
      | Inr vol_info \<Rightarrow>
          (case unpack_from 8 pvd 140 of
             Inl e \<Rightarrow> Inl e
           | Inr l_table \<Rightarrow>
               (case DirEntry_init pvd 0x9c of
                  Inl e \<Rightarrow> Inl e
                | Inr rd \<Rightarrow>
                    Inr \<lparr> volume_space_size = le_sint (slice vol_info 0 4),
                          block_size = le_sint (slice vol_info 48 50),
                          path_table_size = le_sint (slice vol_info 52 56),
                          l_table_off = le_sint (slice l_table 0 4),
                          opt_l_table_off = le_sint (slice l_table 4 8),
                          root_dir = rd \<rparr>)))"

subsection \<open>PathTableEntry\<close>

text \<open>
  The fields \<open>len\<close>, \<open>ext_len\<close>, \<open>extent\<close>, \<open>dir_nb\<close> and \<open>name\<close> of the class
  \<open>PathTableEntry\<close> carry the prefix \<open>pt_\<close> here, \<open>DirEntry\<close> having fields of the
  same names. \<open><bbih\<close> is 8 bytes, every integer signed. The name is a slice, which
  never raises: \<open>py_slice\<close> is \<open>raw[a:b]\<close> for integers of either sign.
\<close>

definition py_slice :: "bytes \<Rightarrow> int \<Rightarrow> int \<Rightarrow> bytes" where
  "py_slice raw a b =
     (let n = int (length raw);
          a' = (if a < 0 then max (a + n) 0 else min a n);
          b' = (if b < 0 then max (b + n) 0 else min b n)
      in slice raw (nat a') (nat b'))"

record PathTableEntry =
  pt_len :: int
  pt_ext_len :: int
  pt_extent :: int
  pt_dir_nb :: int
  pt_name :: string

definition PathTableEntry_init :: "bytes \<Rightarrow> int \<Rightarrow> error + PathTableEntry" where
  "PathTableEntry_init raw offset =
     (case unpack_from 8 raw offset of
        Inl e \<Rightarrow> Inl e
      | Inr d \<Rightarrow>
          (let l = le_sint (slice d 0 1) in
           case decode_ascii (py_slice raw (offset + 8) (offset + 8 + l)) of
             Inl e \<Rightarrow> Inl e
           | Inr s \<Rightarrow>
               Inr \<lparr> pt_len = l,
                     pt_ext_len = le_sint (slice d 1 2),
                     pt_extent = le_sint (slice d 2 6),
                     pt_dir_nb = le_sint (slice d 6 8),
                     pt_name = s \<rparr>))"

definition size_pt :: "PathTableEntry \<Rightarrow> int" where
  "size_pt entry =
     (let fullsize = 8 + pt_len entry
      in if fullsize mod 2 \<noteq> 0 then fullsize + 1 else fullsize)"

subsection \<open>get_pvd_header\<close>

text \<open>
  The scan for the Primary Volume Descriptor: \<open>seek(0x8000)\<close>, then one \<open>read(0x800)\<close>
  per sector. \<open>get_pvd_dump\<close> of \<open>umdb_gen_submission.py\<close> is the same loop around
  another decoding of the sector found, so the loop takes the decoding as \<open>found\<close>.
  \<open>pos\<close> is the position of the stream before the read. An empty read makes
  \<open>raw_sector[0]\<close> raise; a read that is not empty moves the position forward, which
  is why the loop ends on every stream.
\<close>

function pvd_scan :: "(bytes \<Rightarrow> error + 'a) \<Rightarrow> bytes \<Rightarrow> nat \<Rightarrow> error + 'a" where
  "pvd_scan found stream pos =
     (let raw_sector = take 0x800 (drop pos stream) in
      case raw_sector of
        [] \<Rightarrow> Inl IndexError
      | b # _ \<Rightarrow>
          if b = 0xFF then Inl (Exception ''Could not find PVD'')
          else if b = 0x01 then found raw_sector
          else pvd_scan found stream (pos + length raw_sector))"
  by pat_completeness auto
termination
proof (relation "measure (\<lambda>(found, stream, pos). length stream - pos)")
  show "wf (measure (\<lambda>(found, stream, pos). length stream - pos))"
    by simp
next
  fix found :: "bytes \<Rightarrow> error + 'a" and stream :: bytes and pos :: nat
    and raw_sector :: bytes and b :: byte and bs :: bytes
  assume r: "raw_sector = take 0x800 (drop pos stream)" and c: "raw_sector = b # bs"
  from r c have "pos < length stream"
    by (cases "pos < length stream") auto
  moreover from c have "0 < length raw_sector"
    by simp
  ultimately have "length stream - (pos + length raw_sector) < length stream - pos"
    by arith
  then show "((found, stream, pos + length raw_sector), (found, stream, pos))
      \<in> measure (\<lambda>(found, stream, pos). length stream - pos)"
    by simp
qed

definition get_pvd_header :: "bytes \<Rightarrow> error + IsoHeader" where
  "get_pvd_header filestream = pvd_scan IsoHeader_init filestream 0x8000"

subsection \<open>parse_iso\<close>

text \<open>
  The \<open>while idx < header.path_table_size\<close> loop of \<open>parse_iso\<close>. It has no bound in
  the source (an entry may have size 0), so it takes fuel and \<open>None\<close> means that the fuel
  ran out; on leaving the loop it gives the value of \<open>idx\<close>.
\<close>

fun path_table_loop :: "nat \<Rightarrow> bytes \<Rightarrow> int \<Rightarrow> int \<Rightarrow> (error + int) option" where
  "path_table_loop 0 data pts idx = None"
| "path_table_loop (Suc n) data pts idx =
     (if idx < pts then
        (case PathTableEntry_init data idx of
           Inl e \<Rightarrow> Some (Inl e)
         | Inr entry \<Rightarrow> path_table_loop n data pts (idx + size_pt entry))
      else Some (Inr idx))"

text \<open>
  \<open>parse_iso\<close> on the bytes of the file: the header, the path table, the walk from the
  root directory. The source returns nothing; the result here is the last \<open>idx\<close> and
  \<open>dirs\<close>.
\<close>

definition parse_iso :: "nat \<Rightarrow> bytes \<Rightarrow> (error + int \<times> DirEntry list) option" where
  "parse_iso n f =
     (case get_pvd_header f of
        Inl e \<Rightarrow> Some (Inl e)
      | Inr header \<Rightarrow>
          (case seek_read f (l_table_off header * block_size header) (path_table_size header) of
             Inl e \<Rightarrow> Some (Inl e)
           | Inr data \<Rightarrow>
               (case path_table_loop n data (path_table_size header) 0 of
                  None \<Rightarrow> None
                | Some (Inl e) \<Rightarrow> Some (Inl e)
                | Some (Inr idx) \<Rightarrow>
                    (case walk_dirs n f (root_dir header) None of
                       None \<Rightarrow> None
                     | Some (Inl e) \<Rightarrow> Some (Inl e)
                     | Some (Inr dirs) \<Rightarrow> Some (Inr (idx, dirs))))))"

section \<open>umdb_gen_submission.py\<close>

subsection \<open>Text\<close>

text \<open>
  \<open>str(n)\<close> of an integer, as the f-strings format it; \<open>.decode('utf8')\<close>, which
  raises on a byte sequence that is not well-formed UTF-8 and otherwise gives the string
  these bytes encode; \<open>rstrip("\x00")\<close>; and \<open>strip()\<close>, which removes what
  \<open>str.isspace\<close> accepts (for ASCII: 0x09 to 0x0D, 0x1C to 0x1F and the space)
  from both ends.
\<close>

fun str_nat :: "nat \<Rightarrow> string" where
  "str_nat n =
     (if n < 10 then [char_of (48 + n)]
      else str_nat (n div 10) @ [char_of (48 + n mod 10)])"

definition str_int :: "int \<Rightarrow> string" where
  "str_int k = (if k < 0 then CHR ''-'' # str_nat (nat (- k)) else str_nat (nat k))"

definition cont :: "byte \<Rightarrow> bool" where
  "cont b = (0x80 \<le> b \<and> b \<le> 0xBF)"

fun utf8_valid :: "bytes \<Rightarrow> bool" where
  "utf8_valid [] = True"
| "utf8_valid (b # bs) =
     (if b < 0x80 then utf8_valid bs
      else if 0xC2 \<le> b \<and> b \<le> 0xDF then
        (case bs of c1 # r \<Rightarrow> cont c1 \<and> utf8_valid r | _ \<Rightarrow> False)
      else if 0xE0 \<le> b \<and> b \<le> 0xEF then
        (case bs of
           c1 # c2 # r \<Rightarrow>
             (if b = 0xE0 then 0xA0 \<le> c1 \<and> c1 \<le> 0xBF
              else if b = 0xED then 0x80 \<le> c1 \<and> c1 \<le> 0x9F
              else cont c1) \<and> cont c2 \<and> utf8_valid r
         | _ \<Rightarrow> False)
      else if 0xF0 \<le> b \<and> b \<le> 0xF4 then
        (case bs of
           c1 # c2 # c3 # r \<Rightarrow>
             (if b = 0xF0 then 0x90 \<le> c1 \<and> c1 \<le> 0xBF
              else if b = 0xF4 then 0x80 \<le> c1 \<and> c1 \<le> 0x8F
              else cont c1) \<and> cont c2 \<and> cont c3 \<and> utf8_valid r
         | _ \<Rightarrow> False)
      else False)"

definition decode_utf8 :: "bytes \<Rightarrow> error + string" where
  "decode_utf8 bs =
     (if utf8_valid bs then Inr (map (\<lambda>b. char_of (unat b)) bs)
      else Inl UnicodeDecodeError)"

definition rstrip_nul :: "string \<Rightarrow> string" where
  "rstrip_nul s = rev (dropWhile (\<lambda>c. c = CHR 0x00) (rev s))"

definition isspace :: "char \<Rightarrow> bool" where
  "isspace c = (let n = (of_char c :: nat) in (9 \<le> n \<and> n \<le> 13) \<or> (28 \<le> n \<and> n \<le> 32))"

definition strip :: "string \<Rightarrow> string" where
  "strip s = rev (dropWhile isspace (rev (dropWhile isspace s)))"

subsection \<open>SFO\<close>

datatype SFODataFormat = UTF8_NOTERM | UTF8 | INT32

text \<open>\<open>SFODataFormat(v)\<close>: the enumeration raises \<open>ValueError\<close> on any other value.\<close>

definition SFODataFormat_of :: "nat \<Rightarrow> error + SFODataFormat" where
  "SFODataFormat_of v =
     (if v = 0x0004 then Inr UTF8_NOTERM
      else if v = 0x0204 then Inr UTF8
      else if v = 0x0404 then Inr INT32
      else Inl ValueError)"

record SFOIndexTableEntry =
  key_offset :: nat
  data_fmt :: SFODataFormat
  data_len :: nat
  data_max_len :: nat
  data_offset :: nat

text \<open>
  \<open>struct.unpack('<HHIII', raw[offset: offset + 0x10])\<close> raises unless the slice has
  exactly 16 bytes.
\<close>

definition SFOIndexTableEntry_init :: "bytes \<Rightarrow> nat \<Rightarrow> error + SFOIndexTableEntry" where
  "SFOIndexTableEntry_init raw offset =
     (let s = slice raw offset (offset + 0x10) in
      if length s \<noteq> 16 then Inl StructError
      else
        (case SFODataFormat_of (le_uint (slice s 2 4)) of
           Inl e \<Rightarrow> Inl e
         | Inr fmt \<Rightarrow>
             Inr \<lparr> key_offset = le_uint (slice s 0 2),
                   data_fmt = fmt,
                   data_len = le_uint (slice s 4 8),
                   data_max_len = le_uint (slice s 8 12),
                   data_offset = le_uint (slice s 12 16) \<rparr>))"

text \<open>
  A value of the dictionary \<open>self.data\<close>: an integer or a string. The dictionary is the
  list of its items in insertion order; assigning to a key that is present replaces its
  value in place. The field \<open>data\<close> of the class is \<open>sfo_data\<close> here.
\<close>

datatype sfo_value = IntVal nat | StrVal string

fun dict_setitem :: "('k \<times> 'v) list \<Rightarrow> 'k \<Rightarrow> 'v \<Rightarrow> ('k \<times> 'v) list" where
  "dict_setitem [] k v = [(k, v)]"
| "dict_setitem (p # ps) k v = (if fst p = k then (k, v) # ps else p # dict_setitem ps k v)"

record SFO =
  version :: string
  key_table_start :: nat
  data_table_start :: nat
  table_entries :: nat
  idx_table :: "SFOIndexTableEntry list"
  sfo_data :: "(string \<times> sfo_value) list"

definition read_entry :: "SFO \<Rightarrow> bytes \<Rightarrow> nat \<Rightarrow> error + SFO" where
  "read_entry self raw_sfo idx =
     (let entry = idx_table self ! idx;
          k_start = key_table_start self + key_offset entry;
          k_end = (if idx = length (idx_table self) - 1 then data_table_start self
                   else key_table_start self + key_offset (idx_table self ! (idx + 1)))
      in case decode_utf8 (slice raw_sfo k_start k_end) of
           Inl e \<Rightarrow> Inl e
         | Inr k \<Rightarrow>
             (let key = rstrip_nul k;
                  d_start = data_table_start self + data_offset entry;
                  d_end = d_start + data_len entry
              in if data_fmt entry = INT32 then
                   Inr (self\<lparr> sfo_data :=
                     dict_setitem (sfo_data self) key (IntVal (le_uint (slice raw_sfo d_start d_end))) \<rparr>)
                 else
                   (case decode_utf8 (slice raw_sfo d_start d_end) of
                      Inl e \<Rightarrow> Inl e
                    | Inr d \<Rightarrow>
                        Inr (self\<lparr> sfo_data :=
                          dict_setitem (sfo_data self) key (StrVal (rstrip_nul d)) \<rparr>))))"

text \<open>The two \<open>for\<close> loops of \<open>SFO.__init__\<close>, over \<open>range(...)\<close> as a list.\<close>

fun read_index_table :: "bytes \<Rightarrow> nat list \<Rightarrow> SFOIndexTableEntry list \<Rightarrow> error + SFOIndexTableEntry list" where
  "read_index_table raw_sfo [] tbl = Inr tbl"
| "read_index_table raw_sfo (idx # rest) tbl =
     (case SFOIndexTableEntry_init raw_sfo (0x14 + idx * 0x10) of
        Inl e \<Rightarrow> Inl e
      | Inr entry \<Rightarrow> read_index_table raw_sfo rest (tbl @ [entry]))"

fun read_entries :: "SFO \<Rightarrow> bytes \<Rightarrow> nat list \<Rightarrow> error + SFO" where
  "read_entries self raw_sfo [] = Inr self"
| "read_entries self raw_sfo (i # rest) =
     (case read_entry self raw_sfo i of
        Inl e \<Rightarrow> Inl e
      | Inr self' \<Rightarrow> read_entries self' raw_sfo rest)"

text \<open>
  \<open>SFO.__init__\<close>. \<open>struct.unpack\<close> raises unless its argument has the size of the
  format: 4 bytes for \<open><I\<close> (the three bytes at 5, 6, 7 and one zero byte), 12 for
  \<open><III\<close>.
\<close>

definition SFO_init :: "bytes \<Rightarrow> error + SFO" where
  "SFO_init raw_sfo =
     (if slice raw_sfo 0 4 \<noteq> [0x00, 0x50, 0x53, 0x46] then Inl AssertionError
      else
        (let m = slice raw_sfo 5 8 @ [0x00] in
         if length m \<noteq> 4 then Inl StructError
         else
           (case getitem raw_sfo 4 of
              Inl e \<Rightarrow> Inl e
            | Inr major \<Rightarrow>
                (let h = slice raw_sfo 0x08 0x14 in
                 if length h \<noteq> 12 then Inl StructError
                 else
                   (case read_index_table raw_sfo [0 ..< le_uint (slice h 8 12)] [] of
                      Inl e \<Rightarrow> Inl e
                    | Inr tbl \<Rightarrow>
                        read_entries
                          \<lparr> version = str_nat (unat major) @ ''.'' @ str_nat (le_uint m),
                            key_table_start = le_uint (slice h 0 4),
                            data_table_start = le_uint (slice h 4 8),
                            table_entries = le_uint (slice h 8 12),
                            idx_table = tbl,
                            sfo_data = [] \<rparr>
                          raw_sfo [0 ..< length tbl])))))"

definition dump :: "SFO \<Rightarrow> string \<times> (string \<times> sfo_value) list" where
  "dump self = (version self, sfo_data self)"

subsection \<open>The volume descriptor report\<close>

text \<open>
  \<open>4s2s2s2s2s2s2sb\<close> is 17 bytes: seven groups of digits and the zone, a signed byte.
\<close>

definition decdatetime_to_str :: "bytes \<Rightarrow> int \<Rightarrow> error + string" where
  "decdatetime_to_str raw offset =
     (case unpack_from 17 raw offset of
        Inl e \<Rightarrow> Inl e
      | Inr v \<Rightarrow>
          (case decode_ascii (slice v 0 16) of
             Inl e \<Rightarrow> Inl e
           | Inr s \<Rightarrow>
               Inr (take 4 s @ ''-'' @ take 2 (drop 4 s) @ ''-'' @ take 2 (drop 6 s) @ '' ''
                    @ take 2 (drop 8 s) @ '':'' @ take 2 (drop 10 s) @ '':'' @ take 2 (drop 12 s)
                    @ ''.'' @ take 2 (drop 14 s) @ '' ('' @ str_int (le_sint (slice v 16 17)) @ '')'')))"

definition decode_string :: "bytes \<Rightarrow> int \<Rightarrow> int \<Rightarrow> error + string" where
  "decode_string raw offset sz =
     (if sz < 0 then Inl StructError
      else
        (case unpack_from (nat sz) raw offset of
           Inl e \<Rightarrow> Inl e
         | Inr raw_str \<Rightarrow>
             (case decode_ascii raw_str of
                Inl e \<Rightarrow> Inl e
              | Inr s \<Rightarrow> Inr (strip s))))"

record pvd =
  volume_set_id :: string
  publisher :: string
  preparer :: string
  application_id :: string
  creation_date :: string
  modification_date :: string
  expiration_date :: string
  effective_date :: string

definition pvd_fields :: "bytes \<Rightarrow> error + pvd" where
  "pvd_fields raw_sector =
     (case decode_string raw_sector 0xbe 0x80 of Inl e \<Rightarrow> Inl e | Inr f1 \<Rightarrow>
      case decode_string raw_sector 0x13e 0x80 of Inl e \<Rightarrow> Inl e | Inr f2 \<Rightarrow>
      case decode_string raw_sector 0x1be 0x80 of Inl e \<Rightarrow> Inl e | Inr f3 \<Rightarrow>
      case decode_string raw_sector 0x23e 0x80 of Inl e \<Rightarrow> Inl e | Inr f4 \<Rightarrow>
      case decdatetime_to_str raw_sector 0x32d of Inl e \<Rightarrow> Inl e | Inr d1 \<Rightarrow>
      case decdatetime_to_str raw_sector 0x33e of Inl e \<Rightarrow> Inl e | Inr d2 \<Rightarrow>
      case decdatetime_to_str raw_sector 0x34f of Inl e \<Rightarrow> Inl e | Inr d3 \<Rightarrow>
      case decdatetime_to_str raw_sector 0x360 of Inl e \<Rightarrow> Inl e | Inr d4 \<Rightarrow>
        Inr \<lparr> volume_set_id = f1, publisher = f2, preparer = f3, application_id = f4,
              creation_date = d1, modification_date = d2, expiration_date = d3,
              effective_date = d4 \<rparr>)"

definition get_pvd_dump :: "bytes \<Rightarrow> error + pvd" where
  "get_pvd_dump filestream = pvd_scan pvd_fields filestream 0x8000"

section \<open>Directory sectors and images used below\<close>

text \<open>
  Directory records, byte by byte: record length, extended attribute length, extent
  (little then big endian), data length (little then big endian), 7 bytes of date,
  flags, unit size, interleave gap, volume sequence number (both orders), name length,
  name, and a padding byte after a name of even length.
\<close>

definition self_rec :: bytes where
  "self_rec =
     [0x22, 0, 0x12,0,0,0, 0,0,0,0x12, 0,8,0,0, 0,0,8,0, 0,0,0,0,0,0,0, 0x02, 0, 0,
      1,0, 0,1, 1, 0x00]"

definition parent_rec :: bytes where
  "parent_rec =
     [0x22, 0, 0x12,0,0,0, 0,0,0,0x12, 0,8,0,0, 0,0,8,0, 0,0,0,0,0,0,0, 0x02, 0, 0,
      1,0, 0,1, 1, 0x01]"

text \<open>The file \<open>TEST.BIN\<close>: 1024 bytes at extent 100, flags 0.\<close>

definition test_bin_rec :: bytes where
  "test_bin_rec =
     [0x2A, 0, 0x64,0,0,0, 0,0,0,0x64, 0,4,0,0, 0,0,4,0, 0,0,0,0,0,0,0, 0x00, 0, 0,
      1,0, 0,1, 8, 0x54, 0x45, 0x53, 0x54, 0x2E, 0x42, 0x49, 0x4E, 0]"

text \<open>The directory \<open>DIR\<close>: 2048 bytes at extent 19, flags 2.\<close>

definition dir_rec :: bytes where
  "dir_rec =
     [0x24, 0, 0x13,0,0,0, 0,0,0,0x13, 0,8,0,0, 0,0,8,0, 0,0,0,0,0,0,0, 0x02, 0, 0,
      1,0, 0,1, 3, 0x44, 0x49, 0x52]"


definition root_entry :: DirEntry where
  "root_entry =
     \<lparr> length_de = 34, ext_length = 0, extent = 18, data_length = 2048,
       datetime = [0, 0, 0, 0, 0, 0, 0], flags = 2, unit_size = 0, interleave_size = 0,
       seqnum = 1, name_len = 1, name = [CHR 0x00] \<rparr>"

text \<open>
  An image whose root directory holds the pseudo-entries, the directory \<open>DIR\<close> and
  \<open>TEST.BIN\<close>; \<open>DIR\<close>, in sector 19, holds the pseudo-entries and \<open>TEST.BIN\<close>.
\<close>

definition one_dir_iso :: bytes where
  "one_dir_iso =
     replicate 0x9000 0
     @ self_rec @ parent_rec @ dir_rec @ test_bin_rec @ replicate 1902 0
     @ self_rec @ parent_rec @ test_bin_rec @ replicate 1938 0"

definition dir_entry :: DirEntry where
  "dir_entry =
     \<lparr> length_de = 36, ext_length = 0, extent = 19, data_length = 2048,
       datetime = [0, 0, 0, 0, 0, 0, 0], flags = 2, unit_size = 0, interleave_size = 0,
       seqnum = 1, name_len = 3, name = ''DIR'' \<rparr>"


definition parent_entry :: DirEntry where
  "parent_entry =
     \<lparr> length_de = 34, ext_length = 0, extent = 18, data_length = 2048,
       datetime = [0, 0, 0, 0, 0, 0, 0], flags = 2, unit_size = 0, interleave_size = 0,
       seqnum = 1, name_len = 1, name = [CHR 0x01] \<rparr>"

text \<open>
  A root directory whose fourth record has the record length byte 0xD6: the
  pseudo-entries at 0 and 34, \<open>TEST.BIN\<close> at 68, and at 110 a copy of that record
  with the length byte changed.
\<close>

definition neg_len_rec :: bytes where
  "neg_len_rec =
     [0xD6, 0, 0x64,0,0,0, 0,0,0,0x64, 0,4,0,0, 0,0,4,0, 0,0,0,0,0,0,0, 0x00, 0, 0,
      1,0, 0,1, 8, 0x54, 0x45, 0x53, 0x54, 0x2E, 0x42, 0x49, 0x4E, 0]"

definition neg_len_sector :: bytes where
  "neg_len_sector = self_rec @ parent_rec @ test_bin_rec @ neg_len_rec @ replicate 1896 0"

definition neg_len_iso :: bytes where
  "neg_len_iso = replicate 0x9000 0 @ neg_len_sector"

definition test_bin_entry :: DirEntry where
  "test_bin_entry =
     \<lparr> length_de = 42, ext_length = 0, extent = 100, data_length = 1024,
       datetime = [0, 0, 0, 0, 0, 0, 0], flags = 0, unit_size = 0, interleave_size = 0,
       seqnum = 1, name_len = 8, name = ''TEST.BIN'' \<rparr>"




section \<open>Path tables used below\<close>

text \<open>
  The path table of a volume with a root directory only: name length 1, extended
  attribute length 0, extent 18, parent 1, the name byte 0x00 and one byte of padding.
  \<open>short_path_table\<close> is the same entry without the padding byte.
\<close>

definition root_path_table :: bytes where
  "root_path_table = [0x01, 0x00, 0x12, 0, 0, 0, 0x01, 0x00, 0x00, 0x00]"

definition short_path_table :: bytes where
  "short_path_table = [0x01, 0x00, 0x12, 0, 0, 0, 0x01, 0x00, 0x00]"

section \<open>Volume descriptor sectors used below\<close>

text \<open>
  A Primary Volume Descriptor sector: type 1, \<open>CD001\<close>, version 1, block size 2048
  at offset 128, the root directory record at offset 156, zero elsewhere; a sector of
  type 2; and an image that has 40 sectors of type 2 from sector 16 on, then the
  Primary Volume Descriptor.
\<close>

definition pvd_sector :: bytes where
  "pvd_sector =
     [0x01, 0x43, 0x44, 0x30, 0x30, 0x31, 0x01] @ replicate 121 0 @ [0x00, 0x08]
     @ replicate 26 0 @ self_rec @ replicate 1858 0"

definition other_sector :: bytes where
  "other_sector = 0x02 # replicate 0x7FF 0"

definition late_pvd_iso :: bytes where
  "late_pvd_iso = replicate 0x8000 0 @ concat (replicate 40 other_sector) @ pvd_sector"

definition pvd_header :: IsoHeader where
  "pvd_header =
     \<lparr> volume_space_size = 0, block_size = 2048, path_table_size = 0, l_table_off = 0,
       opt_l_table_off = 0, root_dir = root_entry \<rparr>"

text \<open>A source with four sectors of the byte 2 from sector 16 on, which then ends.\<close>

definition no_pvd_iso :: bytes where
  "no_pvd_iso = replicate 0x8000 0 @ replicate 0x2000 0x02"

section \<open>SFO buffers used below\<close>

text \<open>
  An SFO file with one entry: the signature, the version bytes 01 01 00 00, the key
  table at 36, the data table at 44, one index entry (key offset 0, format 0x0204,
  data length 5, maximal length 8, data offset 0), the key \<open>TITLE\<close> and the value
  \<open>GAME\<close>, each with its terminator and padding.
\<close>

definition title_game_sfo :: bytes where
  "title_game_sfo =
     [0x00, 0x50, 0x53, 0x46, 0x01, 0x01, 0x00, 0x00,
      0x24, 0, 0, 0, 0x2C, 0, 0, 0, 0x01, 0, 0, 0,
      0x00, 0x00, 0x04, 0x02, 0x05, 0, 0, 0, 0x08, 0, 0, 0, 0x00, 0, 0, 0,
      0x54, 0x49, 0x54, 0x4C, 0x45, 0x00, 0x00, 0x00,
      0x47, 0x41, 0x4D, 0x45, 0x00, 0x00, 0x00, 0x00]"

text \<open>The same file with the data offset 0x1000 in its index entry.\<close>

definition far_offset_sfo :: bytes where
  "far_offset_sfo =
     [0x00, 0x50, 0x53, 0x46, 0x01, 0x01, 0x00, 0x00,
      0x24, 0, 0, 0, 0x2C, 0, 0, 0, 0x01, 0, 0, 0,
      0x00, 0x00, 0x04, 0x02, 0x05, 0, 0, 0, 0x08, 0, 0, 0, 0x00, 0x10, 0, 0,
      0x54, 0x49, 0x54, 0x4C, 0x45, 0x00, 0x00, 0x00,
      0x47, 0x41, 0x4D, 0x45, 0x00, 0x00, 0x00, 0x00]"

text \<open>The same file with the entry count 2 in its header.\<close>

definition two_count_sfo :: bytes where
  "two_count_sfo =
     [0x00, 0x50, 0x53, 0x46, 0x01, 0x01, 0x00, 0x00,
      0x24, 0, 0, 0, 0x2C, 0, 0, 0, 0x02, 0, 0, 0,
      0x00, 0x00, 0x04, 0x02, 0x05, 0, 0, 0, 0x08, 0, 0, 0, 0x00, 0, 0, 0,
      0x54, 0x49, 0x54, 0x4C, 0x45, 0x00, 0x00, 0x00,
      0x47, 0x41, 0x4D, 0x45, 0x00, 0x00, 0x00, 0x00]"

text \<open>
  An SFO file with one entry of format 0x0404 and data length 5: the key \<open>SIZE\<close> and
  the data bytes 00 00 00 00 01.
\<close>

definition five_byte_int_sfo :: bytes where
  "five_byte_int_sfo =
     [0x00, 0x50, 0x53, 0x46, 0x01, 0x01, 0x00, 0x00,
      0x24, 0, 0, 0, 0x2C, 0, 0, 0, 0x01, 0, 0, 0,
      0x00, 0x00, 0x04, 0x04, 0x05, 0, 0, 0, 0x08, 0, 0, 0, 0x00, 0, 0, 0,
      0x53, 0x49, 0x5A, 0x45, 0x00, 0x00, 0x00, 0x00,
      0x00, 0x00, 0x00, 0x00, 0x01, 0x00, 0x00, 0x00]"

text \<open>
  Decoder states as \<open>SFO.__init__\<close> has them before its second loop: for the file
  with the five-byte integer, for the same index entry with data length 0, for the file
  with the data offset 0x1000, and for a one-byte buffer read as a key.
\<close>

definition five_byte_state :: SFO where
  "five_byte_state =
     \<lparr> version = ''1.1'', key_table_start = 36, data_table_start = 44, table_entries = 1,
       idx_table = [\<lparr> key_offset = 0, data_fmt = INT32, data_len = 5, data_max_len = 8,
                     data_offset = 0 \<rparr>],
       sfo_data = [] \<rparr>"

definition zero_len_state :: SFO where
  "zero_len_state =
     \<lparr> version = ''1.1'', key_table_start = 36, data_table_start = 44, table_entries = 1,
       idx_table = [\<lparr> key_offset = 0, data_fmt = INT32, data_len = 0, data_max_len = 8,
                     data_offset = 0 \<rparr>],
       sfo_data = [] \<rparr>"

definition far_offset_state :: SFO where
  "far_offset_state =
     \<lparr> version = ''1.1'', key_table_start = 36, data_table_start = 44, table_entries = 1,
       idx_table = [\<lparr> key_offset = 0, data_fmt = UTF8, data_len = 5, data_max_len = 8,
                     data_offset = 4096 \<rparr>],
       sfo_data = [] \<rparr>"

definition one_byte_key_state :: SFO where
  "one_byte_key_state =
     \<lparr> version = ''1.1'', key_table_start = 0, data_table_start = 1, table_entries = 1,
       idx_table = [\<lparr> key_offset = 0, data_fmt = UTF8, data_len = 0, data_max_len = 0,
                     data_offset = 0 \<rparr>],
       sfo_data = [] \<rparr>"




section \<open>The directory listing in the words of the specification\<close>








section \<open>An image with a directory in a directory\<close>







section \<open>More images for the scan of the volume descriptors\<close>

text \<open>
  Sector 16 of type 2 and the Primary Volume Descriptor in sector 17; and the same with
  a Volume Descriptor Set Terminator, type 0xFF, between the two.
\<close>

definition second_pvd_iso :: bytes where
  "second_pvd_iso = replicate 0x8000 0 @ other_sector @ pvd_sector"

definition terminator_sector :: bytes where
  "terminator_sector = 0xFF # replicate 0x7FF 0"

definition terminated_iso :: bytes where
  "terminated_iso = replicate 0x8000 0 @ other_sector @ terminator_sector @ pvd_sector"


section \<open>A truncated SFO buffer\<close>

text \<open>
  The file with the integer entry of data length 5, cut after the second byte of its
  data: 46 bytes, the data bytes 34 12.
\<close>

definition truncated_int_sfo :: bytes where
  "truncated_int_sfo =
     [0x00, 0x50, 0x53, 0x46, 0x01, 0x01, 0x00, 0x00,
      0x24, 0, 0, 0, 0x2C, 0, 0, 0, 0x01, 0, 0, 0,
      0x00, 0x00, 0x04, 0x04, 0x05, 0, 0, 0, 0x08, 0, 0, 0, 0x00, 0, 0, 0,
      0x53, 0x49, 0x5A, 0x45, 0x00, 0x00, 0x00, 0x00,
      0x34, 0x12]"

section \<open>Evaluation of the decoders\<close>

lemmas decoder_defs =
  DirEntry_init_def unpack_from_def slice_def le_sint_def decode_ascii_def char_of_def
  bit_Suc_0_iff getitem_def seek_read_def read_n_def

lemmas record_defs = self_rec_def parent_rec_def test_bin_rec_def dir_rec_def

section \<open>The scan of a directory sector\<close>

text \<open>One turn of the loop at a zero byte, and at a record that is not recursed into.\<close>

lemma scan_records_stop:
  "getitem data idx = Inr 0 \<Longrightarrow> scan_records (Suc n) stream data idx i out = Some (Inr out)"
  by simp

lemma scan_records_skip:
  "getitem data idx = Inr b \<Longrightarrow> b \<noteq> 0 \<Longrightarrow> DirEntry_init data idx = Inr e \<Longrightarrow>
   \<not> (flags e AND 0x02 \<noteq> 0 \<and> i \<ge> 2) \<Longrightarrow>
   scan_records (Suc n) stream data idx i out =
     scan_records n stream data (idx + length_de e) (i + 1) out"
  by auto


text \<open>More fuel never changes a result: what some fuel returns is what the code returns.\<close>

lemma walk_scan_fuel_Suc:
  "(walk_dirs n stream dir out = Some r \<longrightarrow> walk_dirs (Suc n) stream dir out = Some r)
   \<and> (scan_records n stream data idx i acc = Some r'
        \<longrightarrow> scan_records (Suc n) stream data idx i acc = Some r')"
proof (induction n arbitrary: dir out r data idx i acc r')
  case 0
  show ?case by simp
next
  case (Suc n)
  have IHw: "\<And>dir out r. walk_dirs n stream dir out = Some r
      \<Longrightarrow> walk_dirs (Suc n) stream dir out = Some r"
    using Suc.IH by blast
  have IHs: "\<And>data idx i acc r'. scan_records n stream data idx i acc = Some r'
      \<Longrightarrow> scan_records (Suc n) stream data idx i acc = Some r'"
    using Suc.IH by blast
  have walk: "walk_dirs (Suc n) stream dir out = Some r
      \<longrightarrow> walk_dirs (Suc (Suc n)) stream dir out = Some r"
  proof
    assume a: "walk_dirs (Suc n) stream dir out = Some r"
    show "walk_dirs (Suc (Suc n)) stream dir out = Some r"
    proof (cases "seek_read stream (extent dir * 0x800) 0x800")
      case (Inl e)
      with a show ?thesis by simp
    next
      case (Inr d)
      with a have "scan_records n stream d 0 0 (case out of None \<Rightarrow> [] | Some xs \<Rightarrow> xs) = Some r"
        by simp
      from IHs[OF this] Inr show ?thesis by simp
    qed
  qed
  have scan: "scan_records (Suc n) stream data idx i acc = Some r'
      \<longrightarrow> scan_records (Suc (Suc n)) stream data idx i acc = Some r'"
  proof
    assume a: "scan_records (Suc n) stream data idx i acc = Some r'"
    show "scan_records (Suc (Suc n)) stream data idx i acc = Some r'"
    proof (cases "getitem data idx")
      case (Inl e)
      with a show ?thesis by simp
    next
      case (Inr b)
      show ?thesis
      proof (cases "b = 0")
        case True
        with a Inr show ?thesis by simp
      next
        case nz: False
        show ?thesis
        proof (cases "DirEntry_init data idx")
          case (Inl e)
          with a Inr nz show ?thesis by simp
        next
          case de: (Inr entry)
          show ?thesis
          proof (cases "flags entry AND 0x02 \<noteq> 0 \<and> i \<ge> 2")
            case False
            with a Inr nz de
            have "scan_records n stream data (idx + length_de entry) (i + 1) acc = Some r'"
              by auto
            from IHs[OF this] False Inr nz de show ?thesis
              by (subst scan_records.simps(2)) auto
          next
            case True
            from a Inr nz de True obtain w where
              w: "walk_dirs n stream entry (Some (acc @ [entry])) = Some w"
              by (auto split: option.splits)
            show ?thesis
            proof (cases w)
              case (Inl e)
              with a Inr nz de True w have "r' = Inl e" by simp
              with IHw[OF w] Inl Inr nz de True show ?thesis
                by (subst scan_records.simps(2)) simp
            next
              case wr: (Inr mid)
              with a Inr nz de True w
              have "scan_records n stream data (idx + length_de entry) (i + 1) mid = Some r'"
                by simp
              from IHs[OF this] IHw[OF w] wr Inr nz de True show ?thesis
                by (subst scan_records.simps(2)) simp
            qed
          qed
        qed
      qed
    qed
  qed
  from walk scan show ?case by blast
qed



lemma walk_one_dir_iso:
  "walk_dirs (Suc (Suc (Suc (Suc (Suc (Suc (Suc (Suc (Suc n))))))))) one_dir_iso root_entry None
     = Some (Inr [dir_entry])"
  by (simp add: decoder_defs record_defs one_dir_iso_def root_entry_def dir_entry_def)



section \<open>The walk and the listing\<close>















section \<open>Properties of the listing\<close>








section \<open>The image with a directory in a directory\<close>















section \<open>What the walk returns\<close>




section \<open>The pseudo-entries\<close>



section \<open>Records at an offset of a sector\<close>







text \<open>The first two turns of the loop, as a step of the walk.\<close>

lemma walk_first_two_records:
  assumes "seek_read stream (extent dir * 0x800) 0x800 = Inr data"
    and "getitem data 0 = Inr b0" and "b0 \<noteq> 0"
    and "DirEntry_init data 0 = Inr e0"
    and "getitem data (length_de e0) = Inr b1" and "b1 \<noteq> 0"
    and "DirEntry_init data (length_de e0) = Inr e1"
  shows "walk_dirs (Suc (Suc (Suc n))) stream dir out =
     scan_records n stream data (length_de e0 + length_de e1) 2
       (case out of None \<Rightarrow> [] | Some xs \<Rightarrow> xs)"
proof -
  let ?acc = "case out of None \<Rightarrow> [] | Some xs \<Rightarrow> xs"
  have "walk_dirs (Suc (Suc (Suc n))) stream dir out =
      scan_records (Suc (Suc n)) stream data 0 0 ?acc"
    using assms(1) by simp
  also have "\<dots> = scan_records (Suc n) stream data (0 + length_de e0) (0 + 1) ?acc"
    using assms(2,3,4) by (intro scan_records_skip) auto
  also have "\<dots> = scan_records n stream data (0 + length_de e0 + length_de e1) (0 + 1 + 1) ?acc"
    using assms(5,6,7) by (intro scan_records_skip) auto
  finally show ?thesis
    by (simp add: numeral_2_eq_2)
qed



section \<open>A record length byte above 0x7F\<close>

text \<open>
  \<open>DirEntry\<close> reads the record length with the format \<open>b\<close>, a signed byte, while the
  loop test \<open>data[idx]\<close> reads the same byte unsigned. In \<open>neg_len_sector\<close> the record
  at 110 has the length byte 0xD6, which is \<open>-42\<close>: the cursor goes back to 68, the
  record there sends it to 110 again, and no fuel is enough for the walk to return.
\<close>

lemma neg_len_facts:
  "getitem neg_len_sector 68 = Inr 0x2A"
  "DirEntry_init neg_len_sector 68 = Inr test_bin_entry"
  "getitem neg_len_sector 110 = Inr 0xD6"
  "DirEntry_init neg_len_sector 110 = Inr (test_bin_entry\<lparr> length_de := -42 \<rparr>)"
  by (simp_all add: decoder_defs record_defs neg_len_sector_def neg_len_rec_def test_bin_entry_def)

lemma neg_len_cycle:
  "scan_records n neg_len_iso neg_len_sector 68 i [] = None
   \<and> scan_records n neg_len_iso neg_len_sector 110 i [] = None"
proof (induction n arbitrary: i)
  case 0
  show ?case by simp
next
  case (Suc n)
  have "scan_records (Suc n) neg_len_iso neg_len_sector 68 i [] =
      scan_records n neg_len_iso neg_len_sector (68 + length_de test_bin_entry) (i + 1) []"
    by (rule scan_records_skip [OF neg_len_facts(1) _ neg_len_facts(2)]) (simp_all add: test_bin_entry_def)
  moreover have "scan_records (Suc n) neg_len_iso neg_len_sector 110 i [] =
      scan_records n neg_len_iso neg_len_sector (110 + length_de (test_bin_entry\<lparr> length_de := -42 \<rparr>)) (i + 1) []"
    by (rule scan_records_skip [OF neg_len_facts(3) _ neg_len_facts(4)]) (simp_all add: test_bin_entry_def)
  ultimately show ?case using Suc.IH by (simp add: test_bin_entry_def)
qed

lemma neg_len_walk3: "walk_dirs (Suc (Suc (Suc n))) neg_len_iso root_entry None
   = scan_records n neg_len_iso neg_len_sector 68 2 []"
proof -
  have h1: "seek_read neg_len_iso (extent root_entry * 0x800) 0x800 = Inr neg_len_sector"
    by (simp add: decoder_defs neg_len_iso_def neg_len_sector_def root_entry_def record_defs neg_len_rec_def)
  have h2: "getitem neg_len_sector 0 = Inr 0x22"
    by (simp add: decoder_defs neg_len_sector_def record_defs)
  have h3: "(0x22 :: byte) \<noteq> 0"
    by simp
  have h4: "DirEntry_init neg_len_sector 0 = Inr root_entry"
    by (simp add: decoder_defs neg_len_sector_def root_entry_def record_defs)
  have h5: "getitem neg_len_sector (length_de root_entry) = Inr 0x22"
    by (simp add: decoder_defs neg_len_sector_def root_entry_def record_defs)
  have h6: "DirEntry_init neg_len_sector (length_de root_entry) = Inr parent_entry"
    by (simp add: decoder_defs neg_len_sector_def root_entry_def parent_entry_def record_defs)
  from walk_first_two_records [OF h1 h2 h3 h4 h5 h3 h6, of n None]
  show ?thesis by (simp add: root_entry_def parent_entry_def)
qed


text \<open>
  C5 at the failing input: the record at 110 decodes with length \<open>-42\<close>, one turn of
  the loop at cursor 110 continues at cursor 68, and the walk returns for no fuel.
\<close>

theorem walk_dirs_negative_record_length_loops:
  "DirEntry_init neg_len_sector 110 = Inr (test_bin_entry\<lparr> length_de := -42 \<rparr>)
   \<and> scan_records (Suc n) neg_len_iso neg_len_sector 110 i out =
       scan_records n neg_len_iso neg_len_sector 68 (i + 1) out
   \<and> walk_dirs n neg_len_iso root_entry None = None"
proof -
  have step: "scan_records (Suc n) neg_len_iso neg_len_sector 110 i out =
      scan_records n neg_len_iso neg_len_sector
        (110 + length_de (test_bin_entry\<lparr> length_de := -42 \<rparr>)) (i + 1) out"
    by (rule scan_records_skip [OF neg_len_facts(3) _ neg_len_facts(4)])
      (simp_all add: test_bin_entry_def)
  have never: "walk_dirs n neg_len_iso root_entry None = None"
  proof (cases "\<exists>m. n = Suc (Suc (Suc m))")
    case True
    then show ?thesis using neg_len_walk3 neg_len_cycle by auto
  next
    case False
    then have "n = 0 \<or> n = Suc 0 \<or> n = Suc (Suc 0)"
      by (metis not0_implies_Suc)
    moreover have "walk_dirs (Suc (Suc (Suc 0))) neg_len_iso root_entry None = None"
      using neg_len_walk3 [of 0] by simp
    ultimately show ?thesis
      by (metis walk_scan_fuel_Suc option.exhaust walk_dirs.simps(1) option.distinct(1))
  qed
  from step never neg_len_facts(4) show ?thesis
    by simp
qed


section \<open>The end of a sector\<close>









section \<open>The path table loop\<close>

lemmas path_table_defs =
  PathTableEntry_init_def unpack_from_def py_slice_def slice_def le_sint_def
  decode_ascii_def char_of_def size_pt_def

lemma PathTableEntry_init_errors:
  "PathTableEntry_init data idx = Inl err \<Longrightarrow> err = StructError \<or> err = UnicodeDecodeError"
  by (auto simp: PathTableEntry_init_def unpack_from_def decode_ascii_def Let_def split: sum.splits if_splits)

lemma path_table_loop_result:
  "(path_table_loop n data pts idx = Some (Inr r) \<longrightarrow> pts \<le> r)
   \<and> (path_table_loop n data pts idx = Some (Inl err) \<longrightarrow> err = StructError \<or> err = UnicodeDecodeError)"
proof (induction n arbitrary: idx)
  case 0
  show ?case by simp
next
  case (Suc n)
  show ?case
  proof (cases "idx < pts")
    case False
    then show ?thesis by simp
  next
    case True
    show ?thesis
    proof (cases "PathTableEntry_init data idx")
      case (Inl e)
      with True PathTableEntry_init_errors [OF Inl] show ?thesis by auto
    next
      case (Inr entry)
      with True Suc.IH [of "idx + size_pt entry"] show ?thesis by simp
    qed
  qed
qed


lemma path_table_loop_root:
  "path_table_loop (Suc (Suc n)) root_path_table 10 0 = Some (Inr 10)"
  by (simp add: path_table_defs root_path_table_def)

lemma path_table_loop_short:
  "path_table_loop (Suc (Suc n)) short_path_table 9 0 = Some (Inr 10)"
  by (simp add: path_table_defs short_path_table_def)

lemma path_table_loop_eleven:
  "path_table_loop (Suc (Suc n)) (root_path_table @ [0x01]) 11 0 = Some (Inl StructError)"
  by (simp add: path_table_defs root_path_table_def)

lemma le_sint_byte:
  "le_sint [b] = (if b < 0x80 then int (unat b) else int (unat b) - 256)"
proof -
  have "(b < 0x80) = (uint b < 128)"
    by (simp add: word_less_def)
  then show ?thesis
    by (auto simp: le_sint_def Let_def)
qed

lemma PathTableEntry_init_len:
  assumes "0 \<le> idx" and "PathTableEntry_init data idx = Inr e"
  shows "pt_len e = (if data ! nat idx < 0x80 then int (unat (data ! nat idx))
                     else int (unat (data ! nat idx)) - 256)"
proof -
  from assms(2) obtain d where d: "unpack_from 8 data idx = Inr d"
    and l: "pt_len e = le_sint (slice d 0 1)"
    by (auto simp: PathTableEntry_init_def Let_def split: sum.splits)
  from d assms(1) have "nat idx + 8 \<le> length data" "d = take 8 (drop (nat idx) data)"
    by (auto simp: unpack_from_def Let_def split: if_splits)
  then have "drop (nat idx) data = data ! nat idx # drop (Suc (nat idx)) data"
    and "d = take 8 (drop (nat idx) data)"
    using Cons_nth_drop_Suc [of "nat idx" data] by simp_all
  then have "slice d 0 1 = [data ! nat idx]"
    by (simp add: slice_def)
  with l show ?thesis
    by (simp add: le_sint_byte)
qed

lemma path_table_loop_total:
  assumes closed: "\<forall>j\<in>S. \<forall>e. j < pts \<and> PathTableEntry_init data j = Inr e \<longrightarrow>
        0 \<le> pt_len e \<and> j + size_pt e \<in> S"
  shows "idx \<in> S \<Longrightarrow> nat (pts - idx) < n \<Longrightarrow>
     \<exists>r. path_table_loop n data pts idx = Some r
       \<and> (case r of Inr c \<Rightarrow> pts \<le> c \<and> c \<in> S
            | Inl err \<Rightarrow> err = StructError \<or> err = UnicodeDecodeError)"
proof (induction n arbitrary: idx)
  case 0
  then show ?case by simp
next
  case (Suc n)
  show ?case
  proof (cases "idx < pts")
    case False
    with Suc.prems show ?thesis by simp
  next
    case True
    show ?thesis
    proof (cases "PathTableEntry_init data idx")
      case (Inl err)
      with True PathTableEntry_init_errors [OF Inl] show ?thesis by auto
    next
      case (Inr e)
      with closed Suc.prems(1) True have nn: "0 \<le> pt_len e" and s: "idx + size_pt e \<in> S"
        by blast+
      from nn have "8 \<le> size_pt e"
        by (simp add: size_pt_def Let_def)
      with Suc.prems(2) True have "nat (pts - (idx + size_pt e)) < n"
        by linarith
      from Suc.IH [OF s this] Inr True show ?thesis
        by simp
    qed
  qed
qed


text \<open>
  C4, as the code has it, for tables in which every entry that the loop decodes has a
  name length byte of at most 0x7F: \<open>S\<close> is any set of cursors that holds the first
  cursor and, with the cursor of such an entry, the cursor after it. While the cursor
  is below \<open>path_table_size\<close> an entry is decoded and the cursor moves on by its
  padded size, 8 plus the name length byte, plus one when that sum is odd. The loop
  always ends, within \<open>path_table_size - idx + 1\<close> turns: normally, as soon as the
  cursor is at or past \<open>path_table_size\<close>, or with the error of decoding an entry,
  \<open>struct.error\<close> when fewer than 8 bytes are left at the cursor or a name that is
  not ASCII. No error is raised for an entry that ends past \<open>path_table_size\<close>. The
  table of 10 bytes with one entry ends with the cursor at 10.
\<close>

theorem path_table_loop_ends_at_or_past_size:
  assumes "idx \<in> S"
    and "\<forall>j\<in>S. \<forall>e. j < pts \<and> PathTableEntry_init data j = Inr e \<longrightarrow>
          0 \<le> pt_len e \<and> j + size_pt e \<in> S"
  shows "(\<exists>r. path_table_loop (nat (pts - idx) + 1) data pts idx = Some r
          \<and> (case r of Inr c \<Rightarrow> pts \<le> c
               | Inl err \<Rightarrow> err = StructError \<or> err = UnicodeDecodeError))
     \<and> (idx < pts \<and> 0 \<le> idx \<and> PathTableEntry_init data idx = Inr e \<longrightarrow>
          data ! nat idx < 0x80 \<and> pt_len e = int (unat (data ! nat idx))
          \<and> path_table_loop (Suc n) data pts idx =
              path_table_loop n data pts
                (idx + (if (8 + pt_len e) mod 2 \<noteq> 0 then 8 + pt_len e + 1 else 8 + pt_len e)))
     \<and> (idx < pts \<and> PathTableEntry_init data idx = Inl err \<longrightarrow>
          (err = StructError \<or> err = UnicodeDecodeError)
          \<and> path_table_loop (Suc n) data pts idx = Some (Inl err))
     \<and> (pts \<le> idx \<longrightarrow> path_table_loop (Suc n) data pts idx = Some (Inr idx))
     \<and> path_table_loop 2 root_path_table 10 0 = Some (Inr 10)"
proof (intro conjI impI)
  have "nat (pts - idx) < nat (pts - idx) + 1"
    by simp
  from path_table_loop_total [OF assms(2) assms(1) this] obtain r where
    r: "path_table_loop (nat (pts - idx) + 1) data pts idx = Some r"
    and g: "case r of Inr c \<Rightarrow> pts \<le> c \<and> c \<in> S
            | Inl err \<Rightarrow> err = StructError \<or> err = UnicodeDecodeError"
    by blast
  from g have "case r of Inr c \<Rightarrow> pts \<le> c
      | Inl err \<Rightarrow> err = StructError \<or> err = UnicodeDecodeError"
    by (cases r) simp_all
  with r
  show "\<exists>r. path_table_loop (nat (pts - idx) + 1) data pts idx = Some r
          \<and> (case r of Inr c \<Rightarrow> pts \<le> c
               | Inl err \<Rightarrow> err = StructError \<or> err = UnicodeDecodeError)"
    by blast
next
  assume a: "idx < pts \<and> 0 \<le> idx \<and> PathTableEntry_init data idx = Inr e"
  with assms have nn: "0 \<le> pt_len e"
    by blast
  from a PathTableEntry_init_len [of idx data e]
  have l: "pt_len e = (if data ! nat idx < 0x80 then int (unat (data ! nat idx))
                     else int (unat (data ! nat idx)) - 256)"
    by simp
  have "uint (data ! nat idx) < 256"
    using unsigned_less [of "data ! nat idx", where ?'a = int] by simp
  with l nn show "data ! nat idx < 0x80"
    by (auto split: if_splits)
  with l show "pt_len e = int (unat (data ! nat idx))"
    by simp
  from a show "path_table_loop (Suc n) data pts idx =
      path_table_loop n data pts
        (idx + (if (8 + pt_len e) mod 2 \<noteq> 0 then 8 + pt_len e + 1 else 8 + pt_len e))"
    by (simp add: size_pt_def Let_def)
next
  assume a: "idx < pts \<and> PathTableEntry_init data idx = Inl err"
  then show "err = StructError \<or> err = UnicodeDecodeError"
    using PathTableEntry_init_errors by blast
  from a show "path_table_loop (Suc n) data pts idx = Some (Inl err)"
    by simp
next
  assume "pts \<le> idx"
  then show "path_table_loop (Suc n) data pts idx = Some (Inr idx)"
    by simp
next
  show "path_table_loop 2 root_path_table 10 0 = Some (Inr 10)"
    using path_table_loop_root [of 0] by (simp add: numeral_2_eq_2)
qed

theorem path_table_loop_ends_at_or_past_size_witness:
  "PathTableEntry_init root_path_table 0 =
     Inr \<lparr> pt_len = 1, pt_ext_len = 0, pt_extent = 18, pt_dir_nb = 1, pt_name = [CHR 0x00] \<rparr>
   \<and> root_path_table ! nat 0 = 0x01
   \<and> path_table_loop (nat (10 - 0) + 1) root_path_table 10 0 = Some (Inr 10)
   \<and> path_table_loop (Suc (Suc 0)) root_path_table 10 0 =
       path_table_loop (Suc 0) root_path_table 10 10
   \<and> path_table_loop (Suc 0) root_path_table 10 10 = Some (Inr 10)
   \<and> path_table_loop (nat (11 - 0) + 1) (root_path_table @ [0x01]) 11 0 = Some (Inl StructError)
   \<and> PathTableEntry_init (root_path_table @ [0x01]) 10 = Inl StructError
   \<and> path_table_loop (Suc 0) (root_path_table @ [0x01]) 11 10 = Some (Inl StructError)
   \<and> path_table_loop 2 root_path_table 10 0 = Some (Inr 10)"
proof -
  let ?e = "\<lparr> pt_len = 1, pt_ext_len = 0, pt_extent = 18, pt_dir_nb = 1, pt_name = [CHR 0x00] \<rparr>"
  let ?S = "{0, 10} :: int set"
  note t = path_table_loop_ends_at_or_past_size
  have e: "PathTableEntry_init root_path_table 0 = Inr ?e"
    by (simp add: path_table_defs root_path_table_def)
  have e10: "PathTableEntry_init (root_path_table @ [0x01]) 0 = Inr ?e"
    by (simp add: path_table_defs root_path_table_def)
  have e11: "PathTableEntry_init (root_path_table @ [0x01]) 10 = Inl StructError"
    by (simp add: path_table_defs root_path_table_def)
  have s: "size_pt ?e = 10"
    by (simp add: size_pt_def)
  have i: "(0 :: int) \<in> ?S"
    by simp
  have c1: "\<forall>j\<in>?S. \<forall>e. j < 10 \<and> PathTableEntry_init root_path_table j = Inr e \<longrightarrow>
      0 \<le> pt_len e \<and> j + size_pt e \<in> ?S"
    using e s by auto
  have c2: "\<forall>j\<in>?S. \<forall>e. j < 11 \<and> PathTableEntry_init (root_path_table @ [0x01]) j = Inr e \<longrightarrow>
      0 \<le> pt_len e \<and> j + size_pt e \<in> ?S"
    using e10 e11 s by auto
  have b: "root_path_table ! nat 0 = 0x01"
    by (simp add: root_path_table_def)
  have r1: "path_table_loop (nat (10 - 0) + 1) root_path_table 10 0 = Some (Inr 10)"
    using path_table_loop_root [of 9] by (simp add: eval_nat_numeral)
  have r2: "path_table_loop (nat (11 - 0) + 1) (root_path_table @ [0x01]) 11 0
      = Some (Inl StructError)"
    using path_table_loop_eleven [of 10] by (simp add: eval_nat_numeral)
  from t [OF i c1, of ?e "Suc 0" StructError] e
  have a: "path_table_loop (Suc (Suc 0)) root_path_table 10 0 =
      path_table_loop (Suc 0) root_path_table 10 10"
    by simp
  have i10: "(10 :: int) \<in> ?S"
    by simp
  from t [OF i10 c1, of ?e 0 StructError]
  have d: "path_table_loop (Suc 0) root_path_table 10 10 = Some (Inr 10)"
    by simp
  from t [OF i c2, of ?e 0 StructError]
  have f: "path_table_loop 2 root_path_table 10 0 = Some (Inr 10)"
    by blast
  from t [OF i10 c2, of ?e 0 StructError] e11
  have g: "path_table_loop (Suc 0) (root_path_table @ [0x01]) 11 10 = Some (Inl StructError)"
    by simp
  from e b r1 a d r2 e11 g f show ?thesis
    by blast
qed

text \<open>
  C4 as the specification states it fails on a table declared with 9 bytes: the entry
  ends at 10, past the declared size, and the loop returns normally with the cursor at 10.
\<close>

theorem path_table_overshoot_counterexample:
  "length short_path_table = 9
   \<and> path_table_loop 2 short_path_table 9 0 = Some (Inr 10)"
  using path_table_loop_short [of 0] by (simp add: numeral_2_eq_2 short_path_table_def)


section \<open>The scan for the Primary Volume Descriptor\<close>

declare pvd_scan.simps [simp del]

lemma pvd_scan_skip_sector:
  assumes "length s = 0x800" and "hd s \<noteq> 0xFF" and "hd s \<noteq> 0x01"
  shows "pvd_scan found (pre @ s @ rest) (length pre) =
         pvd_scan found (pre @ s @ rest) (length pre + 0x800)"
proof -
  have t: "take 0x800 (drop (length pre) (pre @ s @ rest)) = s"
    using assms(1) by simp
  from assms(1) obtain b bs where s: "s = b # bs"
    by (cases s) auto
  show ?thesis
    using assms s by (subst pvd_scan.simps) (simp only: t Let_def, simp)
qed

lemma pvd_scan_skip_sectors:
  assumes "length s = 0x800" and "hd s \<noteq> 0xFF" and "hd s \<noteq> 0x01"
  shows "pvd_scan found (pre @ concat (replicate k s) @ rest) (length pre) =
         pvd_scan found (pre @ concat (replicate k s) @ rest) (length pre + k * 0x800)"
proof (induction k arbitrary: pre)
  case 0
  show ?case by simp
next
  case (Suc k)
  have "pvd_scan found (pre @ concat (replicate (Suc k) s) @ rest) (length pre) =
      pvd_scan found (pre @ s @ (concat (replicate k s) @ rest)) (length pre)"
    by simp
  also have "\<dots> = pvd_scan found (pre @ s @ (concat (replicate k s) @ rest)) (length pre + 0x800)"
    by (rule pvd_scan_skip_sector [OF assms])
  also have "\<dots> = pvd_scan found ((pre @ s) @ concat (replicate k s) @ rest) (length (pre @ s))"
    using assms(1) by simp
  also have "\<dots> = pvd_scan found ((pre @ s) @ concat (replicate k s) @ rest) (length (pre @ s) + k * 0x800)"
    by (rule Suc.IH)
  finally show ?case
    using assms(1) by (simp add: algebra_simps)
qed

lemma pvd_scan_found:
  assumes "length s = 0x800" and "hd s = 0x01"
  shows "pvd_scan found (pre @ s @ rest) (length pre) = found s"
proof -
  have t: "take 0x800 (drop (length pre) (pre @ s @ rest)) = s"
    using assms(1) by simp
  from assms(1) obtain b bs where s: "s = b # bs"
    by (cases s) auto
  show ?thesis
    using assms s by (subst pvd_scan.simps) (simp only: t Let_def, simp)
qed

lemma le_uint_replicate_zero: "le_uint (replicate n 0) = 0"
  by (induction n) simp_all

lemma pvd_sector_header: "IsoHeader_init pvd_sector = Inr pvd_header"
  by (simp add: IsoHeader_init_def decoder_defs pvd_sector_def pvd_header_def root_entry_def
      self_rec_def le_uint_replicate_zero)

lemma get_pvd_header_late_pvd_iso: "get_pvd_header late_pvd_iso = Inr pvd_header"
proof -
  have lo: "length other_sector = 0x800" "hd other_sector \<noteq> 0xFF" "hd other_sector \<noteq> 0x01"
    by (simp_all add: other_sector_def)
  have lp: "length pvd_sector = 0x800" "hd pvd_sector = 0x01"
    by (simp_all add: pvd_sector_def self_rec_def)
  have "get_pvd_header late_pvd_iso =
      pvd_scan IsoHeader_init (replicate 0x8000 0 @ concat (replicate 40 other_sector) @ pvd_sector)
        (length (replicate 0x8000 (0::byte)))"
    by (simp add: get_pvd_header_def late_pvd_iso_def)
  also have "\<dots> = pvd_scan IsoHeader_init
      (replicate 0x8000 0 @ concat (replicate 40 other_sector) @ pvd_sector)
      (length (replicate 0x8000 (0::byte)) + 40 * 0x800)"
    by (rule pvd_scan_skip_sectors [OF lo])
  also have "\<dots> = pvd_scan IsoHeader_init
      ((replicate 0x8000 0 @ concat (replicate 40 other_sector)) @ pvd_sector @ [])
      (length (replicate 0x8000 (0::byte) @ concat (replicate 40 other_sector)))"
    using lo(1) by (simp add: length_concat sum_list_replicate)
  also have "\<dots> = IsoHeader_init pvd_sector"
    by (rule pvd_scan_found [OF lp])
  finally show ?thesis
    by (simp add: pvd_sector_header)
qed

text \<open>One sector that is neither the descriptor looked for nor the terminator.\<close>

lemma pvd_scan_step:
  assumes "pos < length stream" and "stream ! pos \<noteq> 0x01" and "stream ! pos \<noteq> 0xFF"
  shows "pvd_scan found stream pos =
     (if pos + 0x800 \<le> length stream then pvd_scan found stream (pos + 0x800)
      else Inl IndexError)"
proof -
  let ?raw = "take 0x800 (drop pos stream)"
  from assms(1) have d: "drop pos stream = stream ! pos # drop (Suc pos) stream"
    by (simp add: Cons_nth_drop_Suc)
  then obtain bs where raw: "?raw = stream ! pos # bs"
    by (simp add: take_Cons')
  have step: "pvd_scan found stream pos = pvd_scan found stream (pos + length ?raw)"
    using raw assms(2,3) by (subst pvd_scan.simps) (simp add: Let_def)
  show ?thesis
  proof (cases "pos + 0x800 \<le> length stream")
    case True
    then have "length ?raw = 0x800"
      by simp
    with step True show ?thesis by simp
  next
    case False
    with assms(1) have "pos + length ?raw = length stream"
      by simp
    moreover have "pvd_scan found stream (length stream) = Inl IndexError"
      by (subst pvd_scan.simps) simp
    ultimately show ?thesis
      using step False by simp
  qed
qed

lemma pvd_scan_steps:
  "\<forall>j<k. pos + j * 0x800 < length stream \<and> stream ! (pos + j * 0x800) \<noteq> 0x01
      \<and> stream ! (pos + j * 0x800) \<noteq> 0xFF \<Longrightarrow>
   pvd_scan found stream pos =
     (if pos + k * 0x800 \<le> length stream then pvd_scan found stream (pos + k * 0x800)
      else Inl IndexError)"
proof (induction k)
  case 0
  have "\<not> pos \<le> length stream \<Longrightarrow> pvd_scan found stream pos = Inl IndexError"
    by (subst pvd_scan.simps) simp
  then show ?case
    by simp
next
  case (Suc k)
  then have IH: "pvd_scan found stream pos =
      (if pos + k * 0x800 \<le> length stream then pvd_scan found stream (pos + k * 0x800)
       else Inl IndexError)"
    by simp
  from Suc.prems have k: "pos + k * 0x800 < length stream"
    "stream ! (pos + k * 0x800) \<noteq> 0x01" "stream ! (pos + k * 0x800) \<noteq> 0xFF"
    by simp_all
  have st: "pvd_scan found stream (pos + k * 0x800) =
      (if pos + k * 0x800 + 0x800 \<le> length stream
       then pvd_scan found stream (pos + k * 0x800 + 0x800) else Inl IndexError)"
    by (rule pvd_scan_step [OF k])
  have e: "pos + Suc k * 0x800 = pos + k * 0x800 + 0x800"
    by simp
  from IH k(1) have "pvd_scan found stream pos = pvd_scan found stream (pos + k * 0x800)"
    by simp
  with st show ?case
    unfolding e by simp
qed

lemma pvd_scan_at:
  assumes "\<forall>j<k. pos + j * 0x800 < length stream \<and> stream ! (pos + j * 0x800) \<noteq> 0x01
      \<and> stream ! (pos + j * 0x800) \<noteq> 0xFF"
  shows "pos + k * 0x800 < length stream \<and> stream ! (pos + k * 0x800) = 0x01 \<longrightarrow>
      pvd_scan found stream pos = found (take 0x800 (drop (pos + k * 0x800) stream))"
    and "pos + k * 0x800 < length stream \<and> stream ! (pos + k * 0x800) = 0xFF \<longrightarrow>
      pvd_scan found stream pos = Inl (Exception ''Could not find PVD'')"
    and "length stream \<le> pos + k * 0x800 \<longrightarrow> pvd_scan found stream pos = Inl IndexError"
proof -
  note s = pvd_scan_steps [OF assms, of found]
  let ?p = "pos + k * 0x800"
  have raw: "?p < length stream \<Longrightarrow>
      \<exists>bs. take 0x800 (drop ?p stream) = stream ! ?p # bs"
    by (simp add: Cons_nth_drop_Suc [symmetric] take_Cons')
  show "?p < length stream \<and> stream ! ?p = 0x01 \<longrightarrow>
      pvd_scan found stream pos = found (take 0x800 (drop ?p stream))"
  proof
    assume a: "?p < length stream \<and> stream ! ?p = 0x01"
    with raw obtain bs where "take 0x800 (drop ?p stream) = 0x01 # bs"
      by auto
    then have "pvd_scan found stream ?p = found (take 0x800 (drop ?p stream))"
      by (subst pvd_scan.simps) (simp add: Let_def)
    with s a show "pvd_scan found stream pos = found (take 0x800 (drop ?p stream))"
      by simp
  qed
  show "?p < length stream \<and> stream ! ?p = 0xFF \<longrightarrow>
      pvd_scan found stream pos = Inl (Exception ''Could not find PVD'')"
  proof
    assume a: "?p < length stream \<and> stream ! ?p = 0xFF"
    with raw obtain bs where "take 0x800 (drop ?p stream) = 0xFF # bs"
      by auto
    then have "pvd_scan found stream ?p = Inl (Exception ''Could not find PVD'')"
      by (subst pvd_scan.simps) (simp add: Let_def)
    with s a show "pvd_scan found stream pos = Inl (Exception ''Could not find PVD'')"
      by simp
  qed
  show "length stream \<le> ?p \<longrightarrow> pvd_scan found stream pos = Inl IndexError"
  proof
    assume a: "length stream \<le> ?p"
    have "pvd_scan found stream ?p = Inl IndexError"
      using a by (subst pvd_scan.simps) simp
    with s show "pvd_scan found stream pos = Inl IndexError"
      by (simp split: if_splits)
  qed
qed

lemma second_pvd_facts:
  "\<forall>j<1. 0x8000 + j * 0x800 < length second_pvd_iso
      \<and> second_pvd_iso ! (0x8000 + j * 0x800) \<noteq> 0x01
      \<and> second_pvd_iso ! (0x8000 + j * 0x800) \<noteq> 0xFF"
  "0x8000 + 1 * 0x800 < length second_pvd_iso \<and> second_pvd_iso ! (0x8000 + 1 * 0x800) = 0x01"
  "take 0x800 (drop (0x8000 + 1 * 0x800) second_pvd_iso) = pvd_sector"
  by (simp_all add: second_pvd_iso_def other_sector_def pvd_sector_def self_rec_def nth_append)

lemma terminated_facts:
  "\<forall>j<1. 0x8000 + j * 0x800 < length terminated_iso
      \<and> terminated_iso ! (0x8000 + j * 0x800) \<noteq> 0x01
      \<and> terminated_iso ! (0x8000 + j * 0x800) \<noteq> 0xFF"
  "0x8000 + 1 * 0x800 < length terminated_iso \<and> terminated_iso ! (0x8000 + 1 * 0x800) = 0xFF"
  by (simp_all add: terminated_iso_def other_sector_def terminator_sector_def pvd_sector_def
      self_rec_def nth_append)

lemma no_pvd_facts:
  "\<forall>j<4. 0x8000 + j * 0x800 < length no_pvd_iso
      \<and> no_pvd_iso ! (0x8000 + j * 0x800) \<noteq> 0x01
      \<and> no_pvd_iso ! (0x8000 + j * 0x800) \<noteq> 0xFF"
  "length no_pvd_iso \<le> 0x8000 + 4 * 0x800"
  by (auto simp: no_pvd_iso_def nth_append)

text \<open>
  C9, as the code has it. The loop has no count of sectors. Let the first \<open>k\<close> sectors
  from 0x8000 on be there with a first byte that is neither 0x01 nor 0xFF, for any
  \<open>k\<close>. If the next sector starts with 0x01, both scans stop there and decode that
  sector; if it starts with 0xFF, both fail with \<open>Could not find PVD\<close>; if the source
  ends before it, \<open>raw_sector[0]\<close> raises \<open>IndexError\<close> on the empty read. The work
  is bounded by the length of the source and by nothing else.
\<close>

theorem pvd_scan_stops_at_first_descriptor:
  assumes "\<forall>j<k. 0x8000 + j * 0x800 < length stream
      \<and> stream ! (0x8000 + j * 0x800) \<noteq> 0x01 \<and> stream ! (0x8000 + j * 0x800) \<noteq> 0xFF"
  shows "(0x8000 + k * 0x800 < length stream \<and> stream ! (0x8000 + k * 0x800) = 0x01 \<longrightarrow>
        get_pvd_header stream = IsoHeader_init (take 0x800 (drop (0x8000 + k * 0x800) stream))
        \<and> get_pvd_dump stream = pvd_fields (take 0x800 (drop (0x8000 + k * 0x800) stream)))
     \<and> (0x8000 + k * 0x800 < length stream \<and> stream ! (0x8000 + k * 0x800) = 0xFF \<longrightarrow>
        get_pvd_header stream = Inl (Exception ''Could not find PVD'')
        \<and> get_pvd_dump stream = Inl (Exception ''Could not find PVD''))
     \<and> (length stream \<le> 0x8000 + k * 0x800 \<longrightarrow>
        get_pvd_header stream = Inl IndexError \<and> get_pvd_dump stream = Inl IndexError)"
  unfolding get_pvd_header_def get_pvd_dump_def
  using pvd_scan_at [OF assms, of IsoHeader_init] pvd_scan_at [OF assms, of pvd_fields]
  by blast

theorem pvd_scan_stops_at_first_descriptor_witness:
  "second_pvd_iso ! 0x8000 = 0x02 \<and> second_pvd_iso ! 0x8800 = 0x01
   \<and> get_pvd_header second_pvd_iso = Inr pvd_header
   \<and> terminated_iso ! 0x8000 = 0x02 \<and> terminated_iso ! 0x8800 = 0xFF
   \<and> terminated_iso ! 0x9000 = 0x01
   \<and> get_pvd_header terminated_iso = Inl (Exception ''Could not find PVD'')
   \<and> get_pvd_dump terminated_iso = Inl (Exception ''Could not find PVD'')
   \<and> length no_pvd_iso = 0x8000 + 4 * 0x800
   \<and> get_pvd_header no_pvd_iso = Inl IndexError
   \<and> get_pvd_dump no_pvd_iso = Inl IndexError"
proof -
  note t = pvd_scan_stops_at_first_descriptor
  have b: "second_pvd_iso ! 0x8000 = 0x02 \<and> second_pvd_iso ! 0x8800 = 0x01
      \<and> terminated_iso ! 0x8000 = 0x02 \<and> terminated_iso ! 0x8800 = 0xFF
      \<and> terminated_iso ! 0x9000 = 0x01 \<and> length no_pvd_iso = 0x8000 + 4 * 0x800"
    by (simp add: second_pvd_iso_def terminated_iso_def no_pvd_iso_def other_sector_def
        terminator_sector_def pvd_sector_def self_rec_def nth_append)
  from t [OF second_pvd_facts(1)] second_pvd_facts(2,3)
  have h: "get_pvd_header second_pvd_iso = Inr pvd_header"
    by (simp add: pvd_sector_header)
  from t [OF terminated_facts(1)] terminated_facts(2)
  have x: "get_pvd_header terminated_iso = Inl (Exception ''Could not find PVD'')
      \<and> get_pvd_dump terminated_iso = Inl (Exception ''Could not find PVD'')"
    by blast
  from t [OF no_pvd_facts(1)] no_pvd_facts(2)
  have n: "get_pvd_header no_pvd_iso = Inl IndexError \<and> get_pvd_dump no_pvd_iso = Inl IndexError"
    by blast
  from b h x n show ?thesis
    by blast
qed

text \<open>
  C9 as the specification states it fails on the image with 40 sectors of type 2
  before the Primary Volume Descriptor: the scan does not give up after about 32
  sectors, it reads all 40 and returns the descriptor of the 41st.
\<close>

theorem get_pvd_header_late_counterexample:
  "length (concat (replicate 40 other_sector)) = 40 * 0x800
   \<and> get_pvd_header late_pvd_iso = Inr pvd_header"
  using get_pvd_header_late_pvd_iso
  by (simp add: length_concat sum_list_replicate other_sector_def)


section \<open>Fixed-width text fields\<close>

lemma rev_dropWhile_takeWhile:
  "xs = rev (dropWhile P (rev xs)) @ rev (takeWhile P (rev xs))"
proof -
  have "rev (dropWhile P (rev xs)) @ rev (takeWhile P (rev xs)) =
      rev (takeWhile P (rev xs) @ dropWhile P (rev xs))"
    by (simp only: rev_append)
  also have "\<dots> = xs"
    by simp
  finally show ?thesis by simp
qed

lemma strip_shape:
  "\<exists>pre post. t = pre @ strip t @ post \<and> list_all isspace pre \<and> list_all isspace post"
proof -
  let ?rest = "dropWhile isspace t"
  let ?pre = "takeWhile isspace t"
  let ?post = "rev (takeWhile isspace (rev ?rest))"
  have "?rest = strip t @ ?post"
    unfolding strip_def by (rule rev_dropWhile_takeWhile)
  then have "t = ?pre @ strip t @ ?post"
    by (metis takeWhile_dropWhile_id)
  moreover have "list_all isspace ?pre"
    by (simp add: list_all_iff) (metis set_takeWhileD)
  moreover have "list_all isspace ?post"
    by (simp add: list_all_iff) (metis set_takeWhileD)
  ultimately show ?thesis by blast
qed

lemma strip_ends:
  "strip t = [] \<or> (\<not> isspace (hd (strip t)) \<and> \<not> isspace (last (strip t)))"
proof (cases "strip t = []")
  case True
  then show ?thesis by simp
next
  case False
  let ?rest = "dropWhile isspace t"
  let ?d = "dropWhile isspace (rev ?rest)"
  from False have d: "?d \<noteq> []"
    by (simp add: strip_def)
  then have "\<not> isspace (hd ?d)"
    by (rule hd_dropWhile)
  with d have l: "\<not> isspace (last (strip t))"
    by (simp add: strip_def last_rev)
  from d have rest: "?rest \<noteq> []"
    by (metis dropWhile.simps(1) rev.simps(1))
  then have h: "\<not> isspace (hd ?rest)"
    by (rule hd_dropWhile)
  have "?rest = strip t @ rev (takeWhile isspace (rev ?rest))"
    unfolding strip_def by (rule rev_dropWhile_takeWhile)
  with False have "hd ?rest = hd (strip t)"
    by (metis hd_append2)
  with h l show ?thesis by simp
qed


lemmas decode_string_defs =
  decode_string_def unpack_from_def decode_ascii_def strip_def isspace_def char_of_def
  bit_Suc_0_iff

text \<open>
  C7, as the code has it. \<open>decode_string\<close> ends with \<open>strip()\<close>: the text it returns
  is the ASCII text of the window without the whitespace at its two ends. What is
  removed in front and behind is whitespace only, and what is left neither starts nor
  ends with whitespace. The NUL character is not whitespace, so it stays.
\<close>

theorem decode_string_strips_whitespace:
  "decode_string raw offset sz = Inr s \<Longrightarrow>
   \<exists>w pre post. unpack_from (nat sz) raw offset = Inr w \<and> list_all (\<lambda>b. b < 0x80) w
     \<and> map (\<lambda>b. char_of (unat b)) w = pre @ s @ post
     \<and> list_all isspace pre \<and> list_all isspace post
     \<and> (s = [] \<or> (\<not> isspace (hd s) \<and> \<not> isspace (last s)))"
proof -
  assume a: "decode_string raw offset sz = Inr s"
  then obtain w where w: "unpack_from (nat sz) raw offset = Inr w"
    by (auto simp: decode_string_def split: if_splits sum.splits)
  with a have ascii: "list_all (\<lambda>b. b < 0x80) w"
    and s: "s = strip (map (\<lambda>b. char_of (unat b)) w)"
    by (auto simp: decode_string_def decode_ascii_def split: if_splits sum.splits)
  from strip_shape [of "map (\<lambda>b. char_of (unat b)) w"] strip_ends [of "map (\<lambda>b. char_of (unat b)) w"] w ascii s
  show ?thesis by blast
qed


theorem decode_string_strips_whitespace_witness:
  "decode_string [0x20, 0x41, 0x00, 0x42, 0x20, 0x0A] 0 6 = Inr [CHR ''A'', CHR 0x00, CHR ''B'']
   \<and> (\<exists>w pre post. unpack_from (nat 6) [0x20, 0x41, 0x00, 0x42, 0x20, 0x0A] 0 = Inr w
        \<and> list_all (\<lambda>b. b < 0x80) w
        \<and> map (\<lambda>b. char_of (unat b)) w = pre @ [CHR ''A'', CHR 0x00, CHR ''B''] @ post
        \<and> list_all isspace pre \<and> list_all isspace post
        \<and> ([CHR ''A'', CHR 0x00, CHR ''B''] = []
             \<or> (\<not> isspace (hd [CHR ''A'', CHR 0x00, CHR ''B''])
                 \<and> \<not> isspace (last [CHR ''A'', CHR 0x00, CHR ''B'']))))"
proof -
  have d: "decode_string [0x20, 0x41, 0x00, 0x42, 0x20, 0x0A] 0 6 = Inr [CHR ''A'', CHR 0x00, CHR ''B'']"
    by (simp add: decode_string_defs)
  from decode_string_strips_whitespace [OF d] d show ?thesis
    by blast
qed

text \<open>
  C7 as the specification states it fails twice: the NUL bytes that end a window are
  returned, and a space in front is removed.
\<close>

theorem decode_string_counterexample:
  "decode_string [0x41, 0x42, 0x00, 0x00] 0 4 = Inr [CHR ''A'', CHR ''B'', CHR 0x00, CHR 0x00]
   \<and> decode_string [0x20, 0x41, 0x42, 0x20] 0 4 = Inr ''AB''"
  by (simp add: decode_string_defs)


section \<open>The SFO decoder\<close>

lemmas sfo_defs =
  SFO_init_def SFOIndexTableEntry_init_def SFODataFormat_of_def read_entry_def
  decode_utf8_def rstrip_nul_def slice_def getitem_def char_of_def bit_Suc_0_iff dump_def
  cont_def

lemma le_uint_sum: "le_uint bs = (\<Sum>i<length bs. unat (bs ! i) * 256 ^ i)"
proof (induction bs)
  case Nil
  show ?case by simp
next
  case (Cons b bs)
  have "(\<Sum>i<Suc (length bs). unat ((b # bs) ! i) * 256 ^ i) =
      unat ((b # bs) ! 0) * 256 ^ 0 + (\<Sum>i<length bs. unat ((b # bs) ! Suc i) * 256 ^ Suc i)"
    by (rule sum.lessThan_Suc_shift)
  then have "(\<Sum>i<length (b # bs). unat ((b # bs) ! i) * 256 ^ i) =
      unat b + (\<Sum>i<length bs. unat (bs ! i) * 256 ^ Suc i)"
    by simp
  also have "\<dots> = unat b + 256 * (\<Sum>i<length bs. unat (bs ! i) * 256 ^ i)"
    by (simp add: sum_distrib_left mult.assoc mult.left_commute)
  finally show ?case using Cons.IH by simp
qed

lemma read_entry_frame:
  "read_entry self raw i = Inr s' \<Longrightarrow>
   version s' = version self \<and> table_entries s' = table_entries self
   \<and> idx_table s' = idx_table self \<and> key_table_start s' = key_table_start self
   \<and> data_table_start s' = data_table_start self"
  by (auto simp: read_entry_def Let_def split: sum.splits if_splits)

lemma read_entries_frame:
  "read_entries self raw is = Inr s' \<Longrightarrow>
   version s' = version self \<and> table_entries s' = table_entries self
   \<and> idx_table s' = idx_table self"
proof (induction "is" arbitrary: self)
  case Nil
  then show ?case by simp
next
  case (Cons i rest)
  from Cons.prems obtain m where m: "read_entry self raw i = Inr m"
    and r: "read_entries m raw rest = Inr s'"
    by (auto split: sum.splits)
  from Cons.IH [OF r] read_entry_frame [OF m] show ?case by simp
qed

lemma read_entry_errors:
  "read_entry self raw i = Inl err \<Longrightarrow> err = UnicodeDecodeError"
  by (auto simp: read_entry_def decode_utf8_def Let_def split: sum.splits if_splits)

lemma read_index_table_fits:
  "read_index_table raw idxs tbl = Inr t \<Longrightarrow>
   list_all (\<lambda>idx. 0x14 + idx * 0x10 + 0x10 \<le> length raw) idxs"
proof (induction idxs arbitrary: tbl)
  case Nil
  show ?case by simp
next
  case (Cons idx rest)
  from Cons.prems obtain entry where e: "SFOIndexTableEntry_init raw (0x14 + idx * 0x10) = Inr entry"
    and r: "read_index_table raw rest (tbl @ [entry]) = Inr t"
    by (auto split: sum.splits)
  from e have "length (slice raw (0x14 + idx * 0x10) (0x14 + idx * 0x10 + 0x10)) = 16"
    by (auto simp: SFOIndexTableEntry_init_def Let_def split: if_splits)
  then have "0x14 + idx * 0x10 + 0x10 \<le> length raw"
    by (simp add: slice_def min_def split: if_splits)
  with Cons.IH [OF r] show ?case by simp
qed

lemma SFO_init_Inr:
  assumes "SFO_init raw = Inr s"
  shows "slice raw 0 4 = [0x00, 0x50, 0x53, 0x46]"
    and "length raw \<ge> 20"
    and "version s = str_nat (unat (raw ! 4)) @ ''.'' @ str_nat (le_uint (slice raw 5 8 @ [0x00]))"
    and "table_entries s = le_uint (slice (slice raw 0x08 0x14) 8 12)"
    and "\<exists>tbl. read_index_table raw [0 ..< table_entries s] [] = Inr tbl"
proof -
  from assms show sig: "slice raw 0 4 = [0x00, 0x50, 0x53, 0x46]"
    by (auto simp: SFO_init_def split: if_splits)
  from assms sig have h: "length (slice raw 0x08 0x14) = 12"
    by (auto simp: SFO_init_def Let_def split: if_splits sum.splits)
  then show len: "length raw \<ge> 20"
    by (simp add: slice_def min_def split: if_splits)
  then have g: "getitem raw 4 = Inr (raw ! 4)"
    by (simp add: getitem_def)
  from assms sig h g obtain tbl where
    t: "read_index_table raw [0 ..< le_uint (slice (slice raw 0x08 0x14) 8 12)] [] = Inr tbl"
    and r: "read_entries
        \<lparr> version = str_nat (unat (raw ! 4)) @ ''.'' @ str_nat (le_uint (slice raw 5 8 @ [0x00])),
          key_table_start = le_uint (slice (slice raw 0x08 0x14) 0 4),
          data_table_start = le_uint (slice (slice raw 0x08 0x14) 4 8),
          table_entries = le_uint (slice (slice raw 0x08 0x14) 8 12),
          idx_table = tbl, sfo_data = [] \<rparr> raw [0 ..< length tbl] = Inr s"
    by (auto simp: SFO_init_def Let_def split: if_splits sum.splits)
  from read_entries_frame [OF r]
  show "version s = str_nat (unat (raw ! 4)) @ ''.'' @ str_nat (le_uint (slice raw 5 8 @ [0x00]))"
    and te: "table_entries s = le_uint (slice (slice raw 0x08 0x14) 8 12)"
    by simp_all
  from t te show "\<exists>tbl. read_index_table raw [0 ..< table_entries s] [] = Inr tbl"
    by simp
qed

lemma three_bytes:
  "8 \<le> length raw \<Longrightarrow> le_uint (slice raw 5 8 @ [0x00]) =
     unat (raw ! 5) + 256 * unat (raw ! 6) + 65536 * unat (raw ! 7)"
proof -
  assume "8 \<le> length raw"
  then have "drop 5 raw = raw ! 5 # raw ! 6 # raw ! 7 # drop 8 raw"
    using Cons_nth_drop_Suc [of 5 raw] Cons_nth_drop_Suc [of 6 raw] Cons_nth_drop_Suc [of 7 raw]
    by simp
  then have "slice raw 5 8 = [raw ! 5, raw ! 6, raw ! 7]"
    by (simp add: slice_def)
  then show ?thesis by simp
qed

lemma SFO_init_table_fits:
  assumes "SFO_init raw = Inr s"
  shows "0x14 + 0x10 * table_entries s \<le> length raw"
proof (cases "table_entries s")
  case 0
  with SFO_init_Inr(2) [OF assms] show ?thesis by simp
next
  case (Suc n)
  from SFO_init_Inr(5) [OF assms] obtain tbl where
    "read_index_table raw [0 ..< table_entries s] [] = Inr tbl" by blast
  from read_index_table_fits [OF this] Suc
  have "0x14 + n * 0x10 + 0x10 \<le> length raw"
    by (simp add: list_all_iff)
  with Suc show ?thesis by simp
qed


lemma header_count_slice:
  "slice (slice raw 0x08 0x14) 8 12 = slice raw 0x10 0x14"
  by (simp add: slice_def drop_take)

lemma SFO_init_title_game:
  "SFO_init title_game_sfo =
     Inr \<lparr> version = ''1.1'', key_table_start = 36, data_table_start = 44, table_entries = 1,
           idx_table = [\<lparr> key_offset = 0, data_fmt = UTF8, data_len = 5, data_max_len = 8,
                         data_offset = 0 \<rparr>],
           sfo_data = [(''TITLE'', StrVal ''GAME'')] \<rparr>"
  by (simp add: sfo_defs title_game_sfo_def upt_rec)

text \<open>
  C8. A buffer that \<open>SFO.__init__\<close> accepts starts with the signature, and the version
  it reports is the decimal text of the byte at offset 4, a dot, and the decimal text
  of the little-endian value of the bytes at 5, 6 and 7. The buffer with the version
  bytes 01 01 00 00 and the entry \<open>TITLE\<close>, \<open>GAME\<close> gives the version \<open>1.1\<close> and
  that one field.
\<close>

theorem SFO_version_major_minor:
  assumes "SFO_init raw_sfo = Inr s"
  shows "slice raw_sfo 0 4 = [0x00, 0x50, 0x53, 0x46]
     \<and> version s = str_nat (unat (raw_sfo ! 4)) @ ''.''
         @ str_nat (unat (raw_sfo ! 5) + 256 * unat (raw_sfo ! 6) + 65536 * unat (raw_sfo ! 7))
     \<and> fst (dump s) = version s
     \<and> map_sum id dump (SFO_init title_game_sfo) = Inr (''1.1'', [(''TITLE'', StrVal ''GAME'')])"
proof -
  from SFO_init_Inr(2) [OF assms] have "8 \<le> length raw_sfo"
    by simp
  from three_bytes [OF this] SFO_init_Inr(1,3) [OF assms] show ?thesis
    by (simp add: dump_def SFO_init_title_game)
qed

theorem SFO_version_major_minor_witness:
  "slice title_game_sfo 0 4 = [0x00, 0x50, 0x53, 0x46]
   \<and> title_game_sfo ! 4 = 0x01 \<and> title_game_sfo ! 5 = 0x01
   \<and> title_game_sfo ! 6 = 0x00 \<and> title_game_sfo ! 7 = 0x00
   \<and> map_sum id version (SFO_init title_game_sfo) = Inr ''1.1''
   \<and> map_sum id dump (SFO_init title_game_sfo) = Inr (''1.1'', [(''TITLE'', StrVal ''GAME'')])"
proof -
  have b: "title_game_sfo ! 4 = 0x01 \<and> title_game_sfo ! 5 = 0x01
      \<and> title_game_sfo ! 6 = 0x00 \<and> title_game_sfo ! 7 = 0x00"
    by (simp add: title_game_sfo_def)
  have v: "map_sum id version (SFO_init title_game_sfo) = Inr ''1.1''"
    by (simp add: SFO_init_title_game)
  from SFO_version_major_minor [OF SFO_init_title_game] b v show ?thesis
    by blast
qed

text \<open>
  C10, as the code has it. For an entry of format \<open>INT32\<close> whose key decodes,
  \<open>_read_entry\<close> stores the little-endian unsigned value of the slice
  \<open>raw_sfo[d_start: d_start + data_len]\<close>; no byte count of 4 appears. The slice is
  clipped to the buffer: it has \<open>data_len\<close> bytes when it lies inside the buffer, and
  otherwise the bytes that the buffer has from \<open>d_start\<close> on. With \<open>data_len = 0\<close>
  the value is 0.
\<close>

theorem read_entry_int_uses_clipped_span:
  assumes "data_fmt (idx_table self ! idx) = INT32"
    and "decode_utf8 (slice raw_sfo (key_table_start self + key_offset (idx_table self ! idx))
           (if idx = length (idx_table self) - 1 then data_table_start self
            else key_table_start self + key_offset (idx_table self ! (idx + 1)))) = Inr k"
    and "d_start = data_table_start self + data_offset (idx_table self ! idx)"
    and "bs = slice raw_sfo d_start (d_start + data_len (idx_table self ! idx))"
  shows "read_entry self raw_sfo idx =
       Inr (self\<lparr> sfo_data := dict_setitem (sfo_data self) (rstrip_nul k)
              (IntVal (\<Sum>i<length bs. unat (bs ! i) * 256 ^ i)) \<rparr>)
     \<and> bs = take (data_len (idx_table self ! idx)) (drop d_start raw_sfo)
     \<and> length bs = min (data_len (idx_table self ! idx)) (length raw_sfo - d_start)
     \<and> (d_start + data_len (idx_table self ! idx) \<le> length raw_sfo \<longrightarrow>
          length bs = data_len (idx_table self ! idx))
     \<and> (data_len (idx_table self ! idx) = 0 \<longrightarrow> (\<Sum>i<length bs. unat (bs ! i) * 256 ^ i) = 0)"
proof -
  have "read_entry self raw_sfo idx =
      Inr (self\<lparr> sfo_data := dict_setitem (sfo_data self) (rstrip_nul k) (IntVal (le_uint bs)) \<rparr>)"
    using assms by (simp add: read_entry_def Let_def)
  moreover have "bs = take (data_len (idx_table self ! idx)) (drop d_start raw_sfo)"
    using assms(4) by (simp add: slice_def)
  moreover have "length bs = min (data_len (idx_table self ! idx)) (length raw_sfo - d_start)"
    using assms(4) by (simp add: slice_def min.commute)
  moreover have "d_start + data_len (idx_table self ! idx) \<le> length raw_sfo \<longrightarrow>
      length bs = data_len (idx_table self ! idx)"
    using assms(4) by (simp add: slice_def)
  moreover have "data_len (idx_table self ! idx) = 0 \<longrightarrow> le_uint bs = 0"
    using assms(4) by (simp add: slice_def)
  ultimately show ?thesis
    by (simp add: le_uint_sum)
qed

theorem read_entry_int_uses_clipped_span_witness:
  "read_entry five_byte_state five_byte_int_sfo 0 =
     Inr (five_byte_state\<lparr> sfo_data := [(''SIZE'', IntVal 4294967296)] \<rparr>)
   \<and> (2 :: nat) ^ 32 \<le> 4294967296
   \<and> length (slice five_byte_int_sfo 44 (44 + 5)) = 5
   \<and> read_entry zero_len_state five_byte_int_sfo 0 =
       Inr (zero_len_state\<lparr> sfo_data := [(''SIZE'', IntVal 0)] \<rparr>)
   \<and> read_entry five_byte_state truncated_int_sfo 0 =
       Inr (five_byte_state\<lparr> sfo_data := [(''SIZE'', IntVal 4660)] \<rparr>)
   \<and> length (slice truncated_int_sfo 44 (44 + 5)) = 2"
proof -
  let ?k = "[CHR ''S'', CHR ''I'', CHR ''Z'', CHR ''E'', CHR 0x00, CHR 0x00, CHR 0x00, CHR 0x00]"
  let ?bs = "[0x00, 0x00, 0x00, 0x00, 0x01] :: bytes"
  let ?ts = "[0x34, 0x12] :: bytes"
  note t = read_entry_int_uses_clipped_span
  have f5: "data_fmt (idx_table five_byte_state ! 0) = INT32"
    by (simp add: five_byte_state_def)
  have k5: "decode_utf8 (slice five_byte_int_sfo
        (key_table_start five_byte_state + key_offset (idx_table five_byte_state ! 0))
        (if 0 = length (idx_table five_byte_state) - 1 then data_table_start five_byte_state
         else key_table_start five_byte_state + key_offset (idx_table five_byte_state ! (0 + 1))))
      = Inr ?k"
    by (simp add: five_byte_state_def five_byte_int_sfo_def sfo_defs)
  have kt: "decode_utf8 (slice truncated_int_sfo
        (key_table_start five_byte_state + key_offset (idx_table five_byte_state ! 0))
        (if 0 = length (idx_table five_byte_state) - 1 then data_table_start five_byte_state
         else key_table_start five_byte_state + key_offset (idx_table five_byte_state ! (0 + 1))))
      = Inr ?k"
    by (simp add: five_byte_state_def truncated_int_sfo_def sfo_defs)
  have d5: "44 = data_table_start five_byte_state + data_offset (idx_table five_byte_state ! 0)"
    by (simp add: five_byte_state_def)
  have b5: "?bs = slice five_byte_int_sfo 44 (44 + data_len (idx_table five_byte_state ! 0))"
    by (simp add: five_byte_state_def five_byte_int_sfo_def slice_def)
  have bt: "?ts = slice truncated_int_sfo 44 (44 + data_len (idx_table five_byte_state ! 0))"
    by (simp add: five_byte_state_def truncated_int_sfo_def slice_def)
  have s5: "(\<Sum>i<length ?bs. unat (?bs ! i) * 256 ^ i) = 4294967296"
    by (simp add: le_uint_sum [symmetric])
  have st: "(\<Sum>i<length ?ts. unat (?ts ! i) * 256 ^ i) = 4660"
    by (simp add: le_uint_sum [symmetric])
  have r5: "rstrip_nul ?k = ''SIZE''"
    by (simp add: rstrip_nul_def)
  from t [OF f5 k5 d5 b5] have a:
    "read_entry five_byte_state five_byte_int_sfo 0 =
       Inr (five_byte_state\<lparr> sfo_data := [(''SIZE'', IntVal 4294967296)] \<rparr>)"
    unfolding s5 r5 by (simp add: five_byte_state_def)
  from t [OF f5 k5 d5 b5] have l: "length (slice five_byte_int_sfo 44 (44 + 5)) = 5"
    by (simp add: five_byte_state_def five_byte_int_sfo_def slice_def)
  from t [OF f5 kt d5 bt] have c:
    "read_entry five_byte_state truncated_int_sfo 0 =
       Inr (five_byte_state\<lparr> sfo_data := [(''SIZE'', IntVal 4660)] \<rparr>)"
    unfolding st r5 by (simp add: five_byte_state_def)
  from t [OF f5 kt d5 bt] have lt: "length (slice truncated_int_sfo 44 (44 + 5)) = 2"
    by (simp add: five_byte_state_def truncated_int_sfo_def slice_def)
  have f0: "data_fmt (idx_table zero_len_state ! 0) = INT32"
    by (simp add: zero_len_state_def)
  have k0: "decode_utf8 (slice five_byte_int_sfo
        (key_table_start zero_len_state + key_offset (idx_table zero_len_state ! 0))
        (if 0 = length (idx_table zero_len_state) - 1 then data_table_start zero_len_state
         else key_table_start zero_len_state + key_offset (idx_table zero_len_state ! (0 + 1))))
      = Inr ?k"
    by (simp add: zero_len_state_def five_byte_int_sfo_def sfo_defs)
  have d0: "44 = data_table_start zero_len_state + data_offset (idx_table zero_len_state ! 0)"
    by (simp add: zero_len_state_def)
  have b0: "[] = slice five_byte_int_sfo 44 (44 + data_len (idx_table zero_len_state ! 0))"
    by (simp add: zero_len_state_def slice_def)
  from t [OF f0 k0 d0 b0] have z:
    "read_entry zero_len_state five_byte_int_sfo 0 =
       Inr (zero_len_state\<lparr> sfo_data := [(''SIZE'', IntVal 0)] \<rparr>)"
    unfolding r5 by (simp add: zero_len_state_def)
  from a l z c lt show ?thesis
    by simp
qed

text \<open>
  C10 as stated fails on the truncated file: its entry has data length 5, the buffer
  ends two bytes into the data, and the value is decoded from those two bytes.
\<close>

theorem SFO_truncated_int_counterexample:
  "length truncated_int_sfo = 46
   \<and> SFO_init truncated_int_sfo =
     Inr \<lparr> version = ''1.1'', key_table_start = 36, data_table_start = 44, table_entries = 1,
           idx_table = [\<lparr> key_offset = 0, data_fmt = INT32, data_len = 5, data_max_len = 8,
                         data_offset = 0 \<rparr>],
           sfo_data = [(''SIZE'', IntVal 4660)] \<rparr>"
  by (simp add: sfo_defs truncated_int_sfo_def upt_rec)

text \<open>
  C3, as the code has it. Nothing is compared with the length of the buffer. An entry
  count whose index table does not fit in the buffer makes the decoding fail, since
  \<open>struct.unpack\<close> refuses a slice of fewer than 16 bytes. The key and data spans are
  slices, which are clipped to the buffer: \<open>_read_entry\<close> fails only when a span is not
  UTF-8, and a data span that starts at or past the end of the buffer is the empty
  span, stored as \<open>0\<close> or as the empty string.
\<close>

theorem SFO_spans_are_clipped:
  "(length raw_sfo < 0x14 + 0x10 * le_uint (slice raw_sfo 0x10 0x14) \<longrightarrow>
      (\<exists>e. SFO_init raw_sfo = Inl e))
   \<and> (read_entry self raw_sfo idx = Inl err \<longrightarrow> err = UnicodeDecodeError)
   \<and> (length raw_sfo \<le> data_table_start self + data_offset (idx_table self ! idx)
       \<and> decode_utf8 (slice raw_sfo (key_table_start self + key_offset (idx_table self ! idx))
            (if idx = length (idx_table self) - 1 then data_table_start self
             else key_table_start self + key_offset (idx_table self ! (idx + 1)))) = Inr k \<longrightarrow>
      read_entry self raw_sfo idx =
        Inr (self\<lparr> sfo_data := dict_setitem (sfo_data self) (rstrip_nul k)
               (if data_fmt (idx_table self ! idx) = INT32 then IntVal 0 else StrVal []) \<rparr>))"
proof (intro conjI impI)
  assume a: "length raw_sfo < 0x14 + 0x10 * le_uint (slice raw_sfo 0x10 0x14)"
  show "\<exists>e. SFO_init raw_sfo = Inl e"
  proof (cases "SFO_init raw_sfo")
    case (Inl e)
    then show ?thesis by blast
  next
    case (Inr s)
    from SFO_init_table_fits [OF Inr] SFO_init_Inr(4) [OF Inr] a show ?thesis
      by (simp add: header_count_slice)
  qed
next
  assume "read_entry self raw_sfo idx = Inl err"
  then show "err = UnicodeDecodeError"
    by (rule read_entry_errors)
next
  assume a: "length raw_sfo \<le> data_table_start self + data_offset (idx_table self ! idx)
       \<and> decode_utf8 (slice raw_sfo (key_table_start self + key_offset (idx_table self ! idx))
            (if idx = length (idx_table self) - 1 then data_table_start self
             else key_table_start self + key_offset (idx_table self ! (idx + 1)))) = Inr k"
  then have e: "slice raw_sfo (data_table_start self + data_offset (idx_table self ! idx))
      (data_table_start self + data_offset (idx_table self ! idx) + data_len (idx_table self ! idx)) = []"
    by (simp add: slice_def)
  have u: "decode_utf8 [] = Inr []"
    by (simp add: decode_utf8_def)
  from a e u show "read_entry self raw_sfo idx =
        Inr (self\<lparr> sfo_data := dict_setitem (sfo_data self) (rstrip_nul k)
               (if data_fmt (idx_table self ! idx) = INT32 then IntVal 0 else StrVal []) \<rparr>)"
    by (simp add: read_entry_def Let_def rstrip_nul_def)
qed

theorem SFO_spans_are_clipped_witness:
  "SFO_init (take 20 title_game_sfo) = Inl StructError
   \<and> read_entry one_byte_key_state [0xFF] 0 = Inl UnicodeDecodeError
   \<and> read_entry far_offset_state far_offset_sfo 0 =
       Inr (far_offset_state\<lparr> sfo_data := [(''TITLE'', StrVal [])] \<rparr>)"
proof -
  let ?k = "[CHR ''T'', CHR ''I'', CHR ''T'', CHR ''L'', CHR ''E'', CHR 0x00, CHR 0x00, CHR 0x00]"
  note t = SFO_spans_are_clipped
  have h1: "length (take 20 title_game_sfo)
      < 0x14 + 0x10 * le_uint (slice (take 20 title_game_sfo) 0x10 0x14)"
    by (simp add: title_game_sfo_def slice_def)
  have a: "SFO_init (take 20 title_game_sfo) = Inl StructError"
    by (simp add: sfo_defs title_game_sfo_def upt_rec)
  have b: "read_entry one_byte_key_state [0xFF] 0 = Inl UnicodeDecodeError"
    by (simp add: sfo_defs one_byte_key_state_def)
  have h3: "length far_offset_sfo
        \<le> data_table_start far_offset_state + data_offset (idx_table far_offset_state ! 0)
      \<and> decode_utf8 (slice far_offset_sfo
            (key_table_start far_offset_state + key_offset (idx_table far_offset_state ! 0))
            (if 0 = length (idx_table far_offset_state) - 1 then data_table_start far_offset_state
             else key_table_start far_offset_state
               + key_offset (idx_table far_offset_state ! (0 + 1)))) = Inr ?k"
    by (simp add: far_offset_state_def far_offset_sfo_def sfo_defs)
  have r: "rstrip_nul ?k = ''TITLE''"
    by (simp add: rstrip_nul_def)
  from t [of far_offset_sfo far_offset_state 0 UnicodeDecodeError ?k] h3
  have c: "read_entry far_offset_state far_offset_sfo 0 =
       Inr (far_offset_state\<lparr> sfo_data := [(''TITLE'', StrVal [])] \<rparr>)"
    unfolding r by (simp add: far_offset_state_def)
  from t [of "take 20 title_game_sfo" one_byte_key_state 0 UnicodeDecodeError "[]"] h1 a b c
  show ?thesis
    by blast
qed

text \<open>
  C3 as the specification states it fails on the file whose data offset is 0x1000:
  the data span lies outside the 52 bytes of the buffer, and the decoding succeeds with
  the empty string as the value.
\<close>

theorem SFO_far_offset_counterexample:
  "length far_offset_sfo = 52
   \<and> SFO_init far_offset_sfo =
     Inr \<lparr> version = ''1.1'', key_table_start = 36, data_table_start = 44, table_entries = 1,
           idx_table = [\<lparr> key_offset = 0, data_fmt = UTF8, data_len = 5, data_max_len = 8,
                         data_offset = 4096 \<rparr>],
           sfo_data = [(''TITLE'', StrVal [])] \<rparr>"
  by (simp add: sfo_defs far_offset_sfo_def upt_rec)


end
